theory Spec2Isabelle
  imports Complex_Main "HOL-Library.Sublist"
begin

section \<open>Python values used by run\_FullRecall.py\<close>

text \<open>
  Exceptions of the source are values. \<open>TypeError\<close> stands for the tokenizer being
  called on Python's \<open>None\<close>; \<open>ValueError\<close> carries the message that \<open>main\<close>
  formats; \<open>ZeroDivisionError\<close> and \<open>OverflowError\<close> come from the divisions.
\<close>

datatype error = IndexError | KeyError | AssertionError | TypeError | ValueError string
  | ZeroDivisionError | OverflowError

text \<open>\<open>xs.pop()\<close>: removes the last element, raises \<open>IndexError\<close> on the empty list.\<close>

definition pop :: "'a list \<Rightarrow> error + 'a list" where
  "pop xs = (if xs = [] then Inl IndexError else Inr (butlast xs))"

text \<open>
  \<open>xs[:k]\<close> for a Python int \<open>k\<close>: a negative bound counts from the end of the list.
\<close>

definition slice_to :: "'a list \<Rightarrow> int \<Rightarrow> 'a list" where
  "slice_to xs k = (if 0 \<le> k then take (nat k) xs else take (nat (int (length xs) + k)) xs)"

text \<open>\<open>[v] * n\<close> for a Python int \<open>n\<close>: empty when \<open>n\<close> is not positive.\<close>

definition repeat :: "'a \<Rightarrow> int \<Rightarrow> 'a list" where
  "repeat v n = replicate (nat n) v"

section \<open>\_truncate\_seq\_pair\<close>

text \<open>
  The \<open>while True\<close> loop of \<open>_truncate_seq_pair\<close> (lines 398-412). The two lists are
  mutated in place by the source; the model returns them. \<open>None\<close> is a loop that
  never exits, \<open>Some (Inl e)\<close> an exception, \<open>Some (Inr (a, b))\<close> the lists on return.
\<close>

partial_function (option) truncate_seq_pair ::
  "'a list \<Rightarrow> 'a list \<Rightarrow> int \<Rightarrow> (error + 'a list \<times> 'a list) option" where
  "truncate_seq_pair tokens_a tokens_b max_length =
     (let total_length = int (length tokens_a) + int (length tokens_b) in
      if total_length \<le> max_length then Some (Inr (tokens_a, tokens_b))
      else if length tokens_a > length tokens_b then
        (case pop tokens_a of
           Inl e \<Rightarrow> Some (Inl e)
         | Inr tokens_a' \<Rightarrow> truncate_seq_pair tokens_a' tokens_b max_length)
      else
        (case pop tokens_b of
           Inl e \<Rightarrow> Some (Inl e)
         | Inr tokens_b' \<Rightarrow> truncate_seq_pair tokens_a tokens_b' max_length))"

declare truncate_seq_pair.simps [code]

section \<open>Examples, features and the tokenizer\<close>

text \<open>
  \<open>InputExample\<close>, \<open>InputFeatures\<close> and \<open>RelevanceFeatures\<close> (lines 46-86). The
  optional constructor arguments \<open>text_b\<close> and \<open>label\<close> default to \<open>None\<close>.
\<close>

record InputExample =
  guid :: string
  text_a :: string
  text_b :: "string option"
  label :: "string option"

record InputFeatures =
  input_ids :: "int list"
  input_mask :: "int list"
  segment_ids :: "int list"
  label_id :: int

record RelevanceFeatures =
  query_ids :: "int list"
  psg_ids :: "int list"
  query_mask :: "int list"
  psg_mask :: "int list"
  query_segment_ids :: "int list"
  psg_segment_ids :: "int list"
  label_id :: int

text \<open>
  Modelled from the spec: the class \<open>BertTokenizer\<close> of \<open>BERT.tokenization\<close> is not part
  of the sources. The spec describes the collaborator as "a tokenizer producing subword
  tokens and an id mapping": \<open>tokenize\<close> turns a text into its tokens and
  \<open>convert_tokens_to_ids\<close> maps every token to its id, one id per token.
\<close>

record tokenizer =
  tokenize :: "string \<Rightarrow> string list"
  token_id :: "string \<Rightarrow> int"

definition convert_tokens_to_ids :: "tokenizer \<Rightarrow> string list \<Rightarrow> int list" where
  "convert_tokens_to_ids tk tokens = map (token_id tk) tokens"

section \<open>The feature converters\<close>

text \<open>
  \<open>label_map = {label : i for i, label in enumerate(label_list)}\<close>: the pairs
  \<open>(i, label)\<close> of \<open>enumerate\<close> are entered in order, and a later entry overwrites
  an earlier one with the same key.
\<close>

definition label_entry :: "nat \<times> string \<Rightarrow> (string \<rightharpoonup> int) \<Rightarrow> (string \<rightharpoonup> int)" where
  "label_entry p m = m(snd p \<mapsto> int (fst p))"

definition label_map :: "string list \<Rightarrow> (string \<rightharpoonup> int)" where
  "label_map label_list = fold label_entry (enumerate 0 label_list) Map.empty"

text \<open>\<open>label_map[example.label]\<close>: a key that is absent (also \<open>None\<close>) raises \<open>KeyError\<close>.\<close>

definition lookup_label :: "(string \<rightharpoonup> int) \<Rightarrow> string option \<Rightarrow> error + int" where
  "lookup_label m l =
     (case l of
        None \<Rightarrow> Inl KeyError
      | Some s \<Rightarrow> (case m s of None \<Rightarrow> Inl KeyError | Some i \<Rightarrow> Inr i))"

text \<open>Truth value of an optional string: \<open>None\<close> and the empty string are false.\<close>

definition truthy :: "string option \<Rightarrow> bool" where
  "truthy s = (case s of None \<Rightarrow> False | Some t \<Rightarrow> t \<noteq> [])"

text \<open>
  The single-sequence truncation, written three times in the source (lines 266-267,
  338-339 and 342-343):
  \<open>if len(tokens) > max_seq_length - 2: tokens = tokens[:(max_seq_length - 2)]\<close>.
\<close>

definition truncate_tokens :: "'a list \<Rightarrow> int \<Rightarrow> 'a list" where
  "truncate_tokens tokens max_seq_length =
     (if int (length tokens) > max_seq_length - 2
      then slice_to tokens (max_seq_length - 2) else tokens)"

text \<open>
  Lines 255-267 of \<open>convert_examples_to_features\<close>: tokenization and truncation. The
  result is the pair \<open>(tokens_a, tokens_b)\<close>, where \<open>tokens_b\<close> stays \<open>None\<close> when
  \<open>example.text_b\<close> is false.
\<close>

definition tokenize_example ::
  "int \<Rightarrow> tokenizer \<Rightarrow> InputExample \<Rightarrow> (error + string list \<times> string list option) option" where
  "tokenize_example max_seq_length tk example =
     (let tokens_a = tokenize tk (text_a example) in
      case text_b example of
        None \<Rightarrow> Some (Inr (truncate_tokens tokens_a max_seq_length, None))
      | Some tb \<Rightarrow>
          if tb \<noteq> [] then
            (case truncate_seq_pair tokens_a (tokenize tk tb) (max_seq_length - 3) of
               None \<Rightarrow> None
             | Some (Inl e) \<Rightarrow> Some (Inl e)
             | Some (Inr (tokens_a', tokens_b')) \<Rightarrow> Some (Inr (tokens_a', Some tokens_b')))
          else Some (Inr (truncate_tokens tokens_a max_seq_length, None)))"

text \<open>
  Lines 287-326: markers, segment ids, ids, mask, padding, the three assertions and the
  label lookup.
\<close>

definition build_features ::
  "(string \<rightharpoonup> int) \<Rightarrow> int \<Rightarrow> tokenizer \<Rightarrow> string option \<Rightarrow>
   string list \<Rightarrow> string list option \<Rightarrow> error + InputFeatures" where
  "build_features lm max_seq_length tk lbl tokens_a tokens_b =
     (let tokens = [''[CLS]''] @ tokens_a @ [''[SEP]''];
          segment_ids = repeat 0 (int (length tokens));
          second = (case tokens_b of None \<Rightarrow> [] | Some b \<Rightarrow> b);
          tokens = (if second \<noteq> [] then tokens @ second @ [''[SEP]''] else tokens);
          segment_ids = (if second \<noteq> [] then segment_ids @ repeat 1 (int (length second) + 1)
                         else segment_ids);
          input_ids = convert_tokens_to_ids tk tokens;
          input_mask = repeat 1 (int (length input_ids));
          padding = repeat 0 (max_seq_length - int (length input_ids));
          input_ids = input_ids @ padding;
          input_mask = input_mask @ padding;
          segment_ids = segment_ids @ padding
      in if int (length input_ids) \<noteq> max_seq_length then Inl AssertionError
         else if int (length input_mask) \<noteq> max_seq_length then Inl AssertionError
         else if int (length segment_ids) \<noteq> max_seq_length then Inl AssertionError
         else (case lookup_label lm lbl of
                 Inl e \<Rightarrow> Inl e
               | Inr i \<Rightarrow> Inr \<lparr>input_ids = input_ids, input_mask = input_mask,
                              segment_ids = segment_ids, label_id = i\<rparr>))"

text \<open>One iteration of the \<open>for\<close> loop of \<open>convert_examples_to_features\<close>.\<close>

definition example_to_features ::
  "(string \<rightharpoonup> int) \<Rightarrow> int \<Rightarrow> tokenizer \<Rightarrow> InputExample \<Rightarrow> (error + InputFeatures) option" where
  "example_to_features lm max_seq_length tk example =
     (case tokenize_example max_seq_length tk example of
        None \<Rightarrow> None
      | Some (Inl e) \<Rightarrow> Some (Inl e)
      | Some (Inr (tokens_a, tokens_b)) \<Rightarrow>
          Some (build_features lm max_seq_length tk (label example) tokens_a tokens_b))"

fun features_loop ::
  "(string \<rightharpoonup> int) \<Rightarrow> int \<Rightarrow> tokenizer \<Rightarrow> InputExample list \<Rightarrow>
   (error + InputFeatures list) option" where
  "features_loop lm max_seq_length tk [] = Some (Inr [])"
| "features_loop lm max_seq_length tk (example # examples) =
     (case example_to_features lm max_seq_length tk example of
        None \<Rightarrow> None
      | Some (Inl e) \<Rightarrow> Some (Inl e)
      | Some (Inr f) \<Rightarrow>
          (case features_loop lm max_seq_length tk examples of
             None \<Rightarrow> None
           | Some (Inl e) \<Rightarrow> Some (Inl e)
           | Some (Inr fs) \<Rightarrow> Some (Inr (f # fs))))"

definition convert_examples_to_features ::
  "InputExample list \<Rightarrow> string list \<Rightarrow> int \<Rightarrow> tokenizer \<Rightarrow>
   (error + InputFeatures list) option" where
  "convert_examples_to_features examples label_list max_seq_length tk =
     features_loop (label_map label_list) max_seq_length tk examples"

text \<open>
  One iteration of the \<open>for\<close> loop of \<open>convert_examples_to_relevance_features\<close>
  (lines 337-394). Here \<open>example.text_b\<close> goes to the tokenizer unchecked; the tokenizer
  takes a text, so \<open>None\<close> raises.
\<close>

definition example_to_relevance_features ::
  "(string \<rightharpoonup> int) \<Rightarrow> int \<Rightarrow> tokenizer \<Rightarrow> InputExample \<Rightarrow> error + RelevanceFeatures" where
  "example_to_relevance_features lm max_seq_length tk example =
     (let tokens_a = truncate_tokens (tokenize tk (text_a example)) max_seq_length in
      case text_b example of
        None \<Rightarrow> Inl TypeError
      | Some tb \<Rightarrow>
         (let tokens_b = truncate_tokens (tokenize tk tb) max_seq_length;
              tokens_1 = [''[CLS]''] @ tokens_a @ [''[SEP]''];
              query_segment_ids = repeat 0 (int (length tokens_1));
              tokens_2 = [''[CLS]''] @ tokens_b @ [''[SEP]''];
              psg_segment_ids = repeat 0 (int (length tokens_2));
              query_ids = convert_tokens_to_ids tk tokens_1;
              psg_ids = convert_tokens_to_ids tk tokens_2;
              query_mask = repeat 1 (int (length query_ids));
              psg_mask = repeat 1 (int (length psg_ids));
              query_padding = repeat 0 (max_seq_length - int (length query_ids));
              psg_padding = repeat 0 (max_seq_length - int (length psg_ids));
              query_ids = query_ids @ query_padding;
              query_mask = query_mask @ query_padding;
              query_segment_ids = query_segment_ids @ query_padding;
              psg_ids = psg_ids @ psg_padding;
              psg_mask = psg_mask @ psg_padding;
              psg_segment_ids = psg_segment_ids @ psg_padding
          in if int (length query_ids) \<noteq> max_seq_length then Inl AssertionError
             else if int (length query_mask) \<noteq> max_seq_length then Inl AssertionError
             else if int (length query_segment_ids) \<noteq> max_seq_length then Inl AssertionError
             else if int (length psg_ids) \<noteq> max_seq_length then Inl AssertionError
             else if int (length psg_mask) \<noteq> max_seq_length then Inl AssertionError
             else if int (length psg_segment_ids) \<noteq> max_seq_length then Inl AssertionError
             else (case lookup_label lm (label example) of
                     Inl e \<Rightarrow> Inl e
                   | Inr i \<Rightarrow>
                       Inr \<lparr>query_ids = query_ids, psg_ids = psg_ids,
                            query_mask = query_mask, psg_mask = psg_mask,
                            query_segment_ids = query_segment_ids,
                            psg_segment_ids = psg_segment_ids, label_id = i\<rparr>)))"

fun relevance_loop ::
  "(string \<rightharpoonup> int) \<Rightarrow> int \<Rightarrow> tokenizer \<Rightarrow> InputExample list \<Rightarrow>
   error + RelevanceFeatures list" where
  "relevance_loop lm max_seq_length tk [] = Inr []"
| "relevance_loop lm max_seq_length tk (example # examples) =
     (case example_to_relevance_features lm max_seq_length tk example of
        Inl e \<Rightarrow> Inl e
      | Inr f \<Rightarrow>
          (case relevance_loop lm max_seq_length tk examples of
             Inl e \<Rightarrow> Inl e
           | Inr fs \<Rightarrow> Inr (f # fs)))"

definition convert_examples_to_relevance_features ::
  "InputExample list \<Rightarrow> string list \<Rightarrow> int \<Rightarrow> tokenizer \<Rightarrow> error + RelevanceFeatures list" where
  "convert_examples_to_relevance_features examples label_list max_seq_length tk =
     relevance_loop (label_map label_list) max_seq_length tk examples"

text \<open>
  A small tokenizer for concrete runs: every character is a token, and the id of a token
  is its number of characters.
\<close>

definition char_tokenizer :: tokenizer where
  "char_tokenizer = \<lparr>tokenize = map (\<lambda>c. [c]), token_id = (\<lambda>t. int (length t))\<rparr>"

section \<open>The data processors\<close>

text \<open>\<open>xs[i]\<close> for a Python int \<open>i\<close>; out of range raises \<open>IndexError\<close>.\<close>

definition item :: "'a list \<Rightarrow> int \<Rightarrow> error + 'a" where
  "item xs i =
     (if 0 \<le> i \<and> i < int (length xs) then Inr (xs ! nat i)
      else if i < 0 \<and> - int (length xs) \<le> i then Inr (xs ! nat (int (length xs) + i))
      else Inl IndexError)"

text \<open>\<open>str(n)\<close> and \<open>"%s" % n\<close> for an int: its decimal digits.\<close>

definition digit :: "nat \<Rightarrow> char" where
  "digit d = ''0123456789'' ! d"

function str_nat :: "nat \<Rightarrow> string" where
  "str_nat n = (if n < 10 then [digit n] else str_nat (n div 10) @ [digit (n mod 10)])"
  by pat_completeness auto
termination
  by (relation "measure id") auto

declare str_nat.simps [simp del]

definition str_int :: "int \<Rightarrow> string" where
  "str_int i = (if i < 0 then CHR ''-'' # str_nat (nat (- i)) else str_nat (nat i))"

text \<open>
  The body of each \<open>_create_examples\<close> loop for one row, and the loop over
  \<open>enumerate(lines)\<close>. A row is the list of its columns.
\<close>

definition mrpc_example :: "string \<Rightarrow> nat \<Rightarrow> string list \<Rightarrow> error + InputExample" where
  "mrpc_example set_type i line =
     (case item line 3 of Inl e \<Rightarrow> Inl e | Inr ta \<Rightarrow>
       (case item line 4 of Inl e \<Rightarrow> Inl e | Inr tb \<Rightarrow>
         (case item line 0 of Inl e \<Rightarrow> Inl e | Inr l \<Rightarrow>
            Inr \<lparr>guid = set_type @ ''-'' @ str_nat i, text_a = ta, text_b = Some tb,
                 label = Some l\<rparr>)))"

fun mrpc_rows :: "string \<Rightarrow> nat \<Rightarrow> string list list \<Rightarrow> error + InputExample list" where
  "mrpc_rows set_type i [] = Inr []"
| "mrpc_rows set_type i (line # lines) =
     (if i = 0 then mrpc_rows set_type (Suc i) lines
      else case mrpc_example set_type i line of
             Inl e \<Rightarrow> Inl e
           | Inr ex \<Rightarrow>
               (case mrpc_rows set_type (Suc i) lines of
                  Inl e \<Rightarrow> Inl e
                | Inr exs \<Rightarrow> Inr (ex # exs)))"

definition MrpcProcessor_create_examples ::
  "string list list \<Rightarrow> string \<Rightarrow> error + InputExample list" where
  "MrpcProcessor_create_examples lines set_type = mrpc_rows set_type 0 lines"

definition mnli_example :: "string \<Rightarrow> string list \<Rightarrow> error + InputExample" where
  "mnli_example set_type line =
     (case item line 0 of Inl e \<Rightarrow> Inl e | Inr g \<Rightarrow>
       (case item line 8 of Inl e \<Rightarrow> Inl e | Inr ta \<Rightarrow>
         (case item line 9 of Inl e \<Rightarrow> Inl e | Inr tb \<Rightarrow>
           (case item line (- 1) of Inl e \<Rightarrow> Inl e | Inr l \<Rightarrow>
              Inr \<lparr>guid = set_type @ ''-'' @ g, text_a = ta, text_b = Some tb,
                   label = Some l\<rparr>))))"

fun mnli_rows :: "string \<Rightarrow> nat \<Rightarrow> string list list \<Rightarrow> error + InputExample list" where
  "mnli_rows set_type i [] = Inr []"
| "mnli_rows set_type i (line # lines) =
     (if i = 0 then mnli_rows set_type (Suc i) lines
      else case mnli_example set_type line of
             Inl e \<Rightarrow> Inl e
           | Inr ex \<Rightarrow>
               (case mnli_rows set_type (Suc i) lines of
                  Inl e \<Rightarrow> Inl e
                | Inr exs \<Rightarrow> Inr (ex # exs)))"

definition MnliProcessor_create_examples ::
  "string list list \<Rightarrow> string \<Rightarrow> error + InputExample list" where
  "MnliProcessor_create_examples lines set_type = mnli_rows set_type 0 lines"

definition cola_example :: "string \<Rightarrow> nat \<Rightarrow> string list \<Rightarrow> error + InputExample" where
  "cola_example set_type i line =
     (case item line 3 of Inl e \<Rightarrow> Inl e | Inr ta \<Rightarrow>
       (case item line 1 of Inl e \<Rightarrow> Inl e | Inr l \<Rightarrow>
          Inr \<lparr>guid = set_type @ ''-'' @ str_nat i, text_a = ta, text_b = None,
               label = Some l\<rparr>))"

fun cola_rows :: "string \<Rightarrow> nat \<Rightarrow> string list list \<Rightarrow> error + InputExample list" where
  "cola_rows set_type i [] = Inr []"
| "cola_rows set_type i (line # lines) =
     (case cola_example set_type i line of
        Inl e \<Rightarrow> Inl e
      | Inr ex \<Rightarrow>
          (case cola_rows set_type (Suc i) lines of
             Inl e \<Rightarrow> Inl e
           | Inr exs \<Rightarrow> Inr (ex # exs)))"

definition ColaProcessor_create_examples ::
  "string list list \<Rightarrow> string \<Rightarrow> error + InputExample list" where
  "ColaProcessor_create_examples lines set_type = cola_rows set_type 0 lines"

definition textqna_example :: "string \<Rightarrow> nat \<Rightarrow> string list \<Rightarrow> error + InputExample" where
  "textqna_example set_type i line =
     (case item line 0 of Inl e \<Rightarrow> Inl e | Inr ta \<Rightarrow>
       (case item line 1 of Inl e \<Rightarrow> Inl e | Inr tb \<Rightarrow>
         (case item line 2 of Inl e \<Rightarrow> Inl e | Inr l \<Rightarrow>
            Inr \<lparr>guid = set_type @ ''-'' @ str_nat i, text_a = ta, text_b = Some tb,
                 label = Some l\<rparr>)))"

fun textqna_rows :: "string \<Rightarrow> nat \<Rightarrow> string list list \<Rightarrow> error + InputExample list" where
  "textqna_rows set_type i [] = Inr []"
| "textqna_rows set_type i (line # lines) =
     (case textqna_example set_type i line of
        Inl e \<Rightarrow> Inl e
      | Inr ex \<Rightarrow>
          (case textqna_rows set_type (Suc i) lines of
             Inl e \<Rightarrow> Inl e
           | Inr exs \<Rightarrow> Inr (ex # exs)))"

definition TextQnA_create_examples ::
  "string list list \<Rightarrow> string \<Rightarrow> error + InputExample list" where
  "TextQnA_create_examples lines set_type = textqna_rows set_type 0 lines"

section \<open>Double-precision arithmetic and warmup\_linear\<close>

text \<open>
  A Python \<open>float\<close> is an IEEE 754 binary64 number. A finite one is given by its value, a
  real; an operation returns the exact result rounded to the nearest double, ties to the
  even significand. \<open>pow2 e\<close> is \<open>2\<close> to the power \<open>e\<close>, and \<open>floor_log2 x\<close> the
  exponent of the binade of a positive \<open>x\<close>: \<open>2^k <= x < 2^(k+1)\<close>.
\<close>

definition pow2 :: "int \<Rightarrow> real" where
  "pow2 e = (if 0 \<le> e then 2 ^ nat e else 1 / 2 ^ nat (- e))"

function floor_log2 :: "real \<Rightarrow> int" where
  "floor_log2 x =
     (if x \<le> 0 then 0
      else if x < 1 then floor_log2 (2 * x) - 1
      else if 2 \<le> x then floor_log2 (x / 2) + 1
      else 0)"
  by pat_completeness auto
termination
proof (relation "measure (\<lambda>x. nat \<bar>\<lfloor>log 2 x\<rfloor>\<bar>)")
  show "wf (measure (\<lambda>x. nat \<bar>\<lfloor>log 2 x\<rfloor>\<bar>))" by simp
next
  fix x :: real
  assume "\<not> x \<le> 0" "x < 1"
  then have pos: "0 < x" and neg: "log 2 x < 0" by simp_all
  have "log 2 (2 * x) = 1 + log 2 x" using pos by (simp add: log_mult)
  then have "\<lfloor>log 2 (2 * x)\<rfloor> = \<lfloor>log 2 x\<rfloor> + 1" by simp
  moreover from neg have "\<lfloor>log 2 x\<rfloor> < 0" by (simp add: floor_less_iff)
  ultimately have "nat \<bar>\<lfloor>log 2 (2 * x)\<rfloor>\<bar> < nat \<bar>\<lfloor>log 2 x\<rfloor>\<bar>" by linarith
  then show "(2 * x, x) \<in> measure (\<lambda>x. nat \<bar>\<lfloor>log 2 x\<rfloor>\<bar>)" by simp
next
  fix x :: real
  assume "\<not> x \<le> 0" "\<not> x < 1" "2 \<le> x"
  then have pos: "0 < x" by simp
  from \<open>2 \<le> x\<close> have "1 \<le> log 2 x" using log_le_cancel_iff [of 2 2 x] by simp
  then have ge: "1 \<le> \<lfloor>log 2 x\<rfloor>" by (simp add: le_floor_iff)
  have "log 2 (x / 2) = log 2 x - 1" using pos by (simp add: log_divide)
  then have "\<lfloor>log 2 (x / 2)\<rfloor> = \<lfloor>log 2 x\<rfloor> - 1" by simp
  with ge have "nat \<bar>\<lfloor>log 2 (x / 2)\<rfloor>\<bar> < nat \<bar>\<lfloor>log 2 x\<rfloor>\<bar>" by linarith
  then show "(x / 2, x) \<in> measure (\<lambda>x. nat \<bar>\<lfloor>log 2 x\<rfloor>\<bar>)" by simp
qed

declare floor_log2.simps [simp del]

text \<open>Rounding a real to the nearest integer, a tie to the even one.\<close>

definition round_half_even :: "real \<Rightarrow> int" where
  "round_half_even q =
     (let f = \<lfloor>q\<rfloor>; r = q - of_int f
      in if r < 1 / 2 then f else if 1 / 2 < r then f + 1 else if even f then f else f + 1)"

text \<open>
  The doubles of the binade of \<open>x\<close> are the multiples of \<open>pow2 (ulp_exponent x)\<close>: 53
  significant bits, and the spacing \<open>2^-1074\<close> of the subnormal numbers at the bottom.
  \<open>round64\<close> rounds to that grid; its result is not bounded above, so that overflow is
  what the caller makes of a result of magnitude \<open>2^1024\<close> or more.
\<close>

definition ulp_exponent :: "real \<Rightarrow> int" where
  "ulp_exponent x = max (floor_log2 \<bar>x\<bar> - 52) (- 1074)"

definition round64 :: "real \<Rightarrow> real" where
  "round64 x =
     (if x = 0 then 0
      else of_int (round_half_even (x / pow2 (ulp_exponent x))) * pow2 (ulp_exponent x))"

text \<open>
  The result of an operation on floats: a finite double or an infinity. (The operations
  below, on finite arguments, give no NaN; the sign of a zero is not modelled, since
  \<open>-0.0\<close> and \<open>0.0\<close> compare equal.)
\<close>

datatype pyfloat = Finite real | PlusInf | MinusInf

definition to_float :: "real \<Rightarrow> pyfloat" where
  "to_float r =
     (let v = round64 r
      in if pow2 1024 \<le> v then PlusInf else if v \<le> - pow2 1024 then MinusInf else Finite v)"

text \<open>\<open>x / y\<close> and \<open>x - y\<close> on finite floats; dividing by zero raises.\<close>

definition float_div :: "real \<Rightarrow> real \<Rightarrow> error + pyfloat" where
  "float_div x y = (if y = 0 then Inl ZeroDivisionError else Inr (to_float (x / y)))"

definition float_sub :: "real \<Rightarrow> real \<Rightarrow> pyfloat" where
  "float_sub x y = to_float (x - y)"

text \<open>
  \<open>warmup_linear\<close> (lines 414-417), on the values of two finite floats \<open>x\<close> and
  \<open>warmup\<close>.
\<close>

definition warmup_linear :: "real \<Rightarrow> real \<Rightarrow> error + pyfloat" where
  "warmup_linear x warmup =
     (if x < warmup then float_div x warmup else Inr (float_sub 1 x))"

text \<open>
  \<open>a / b\<close> on two ints under \<open>from __future__ import division\<close>: the exact quotient
  rounded to a double, \<open>OverflowError\<close> when it is too large for one. \<open>int(v)\<close> on a
  finite float truncates towards zero.
\<close>

definition int_truediv :: "int \<Rightarrow> int \<Rightarrow> error + real" where
  "int_truediv a b =
     (if b = 0 then Inl ZeroDivisionError
      else (let v = round64 (of_int a / of_int b)
            in if pow2 1024 \<le> \<bar>v\<bar> then Inl OverflowError else Inr v))"

definition int_of_float :: "real \<Rightarrow> int" where
  "int_of_float v = (if 0 \<le> v then \<lfloor>v\<rfloor> else \<lceil>v\<rceil>)"

section \<open>Argument validation in main\<close>

text \<open>The parsed arguments that \<open>main\<close> reads before it loads the tokenizer.\<close>

record args =
  task_name :: string
  output_dir :: string
  do_train :: bool
  do_eval :: bool
  train_batch_size :: int
  gradient_accumulation_steps :: int

text \<open>
  What the calls into \<open>torch\<close>, \<open>numpy\<close> and \<open>os\<close> made by lines 523-552 answer: the
  exception raised by the device set-up (lines 523-533) and by the seeding (lines
  541-545), if any, and the state of the file system. \<open>lower\<close> is \<open>str.lower\<close> of the
  Python runtime: its Unicode case tables are not part of the sources.
\<close>

record env =
  device_setup :: "error option"
  seeding :: "error option"
  path_exists :: "string \<Rightarrow> bool"
  listdir :: "string \<Rightarrow> error + string list"
  makedirs :: "string \<Rightarrow> error option"
  lower :: "string \<Rightarrow> string"

datatype processor = ColaProcessor | MnliProcessor | MrpcProcessor | TextQnA

definition processors :: "string \<rightharpoonup> processor" where
  "processors = map_of [(''cola'', ColaProcessor), (''mnli'', MnliProcessor),
                        (''mrpc'', MrpcProcessor), (''textqna'', TextQnA)]"

definition num_labels_task :: "string \<rightharpoonup> int" where
  "num_labels_task = map_of [(''cola'', 2), (''mnli'', 3), (''mrpc'', 2), (''textqna'', 2)]"

fun get_labels :: "processor \<Rightarrow> string list" where
  "get_labels MrpcProcessor = [''0'', ''1'']"
| "get_labels MnliProcessor = [''contradiction'', ''entailment'', ''neutral'']"
| "get_labels ColaProcessor = [''0'', ''1'']"
| "get_labels TextQnA = [''0'', ''1'']"

text \<open>
  What \<open>str.lower\<close> does on a text of ASCII characters: the letters A-Z become a-z.
  It serves as the \<open>lower\<close> of the environments of the concrete runs, whose task names
  are ASCII.
\<close>

definition ascii_lower_char :: "char \<Rightarrow> char" where
  "ascii_lower_char c =
     (case map_of (zip ''ABCDEFGHIJKLMNOPQRSTUVWXYZ'' ''abcdefghijklmnopqrstuvwxyz'') c of
        None \<Rightarrow> c
      | Some d \<Rightarrow> d)"

definition ascii_lower :: "string \<Rightarrow> string" where
  "ascii_lower s = map ascii_lower_char s"

text \<open>
  The test of line 550,
  \<open>os.path.exists(args.output_dir) and os.listdir(args.output_dir) and args.do_train\<close>:
  the directory is listed only when it exists, and listing may raise.
\<close>

definition output_dir_in_use :: "env \<Rightarrow> args \<Rightarrow> error + bool" where
  "output_dir_in_use ev a =
     (if path_exists ev (output_dir a)
      then (case listdir ev (output_dir a) of
              Inl e \<Rightarrow> Inl e
            | Inr entries \<Rightarrow> Inr (entries \<noteq> [] \<and> do_train a))
      else Inr False)"

text \<open>Lines 554-561: the processor, the number of labels and the label list of the task.\<close>

definition select_task :: "env \<Rightarrow> string \<Rightarrow> error + processor \<times> int \<times> string list" where
  "select_task ev name =
     (let task = lower ev name in
      case processors task of
        None \<Rightarrow> Inl (ValueError (''Task not found: '' @ task))
      | Some p \<Rightarrow>
          (case num_labels_task task of
             None \<Rightarrow> Inl KeyError
           | Some num_labels \<Rightarrow> Inr (p, num_labels, get_labels p)))"

text \<open>
  \<open>main\<close> from the device set-up to the choice of the processor (lines 523-561).
  \<open>Inl e\<close> is the exception that ends the run; \<open>Inr (train_batch_size, processor,
  num_labels, label_list)\<close> is the state with which \<open>main\<close> goes on to load the
  tokenizer and the model, to train and to evaluate: the batch size as line 539 leaves it
  and the choices of lines 559-561.
\<close>

definition main ::
  "env \<Rightarrow> args \<Rightarrow> error + int \<times> processor \<times> int \<times> string list" where
  "main ev a =
     (case device_setup ev of
        Some e \<Rightarrow> Inl e
      | None \<Rightarrow>
         (if gradient_accumulation_steps a < 1 then
            Inl (ValueError (''Invalid gradient_accumulation_steps parameter: ''
                   @ str_int (gradient_accumulation_steps a) @ '', should be >= 1''))
          else
            (case int_truediv (train_batch_size a) (gradient_accumulation_steps a) of
               Inl e \<Rightarrow> Inl e
             | Inr q \<Rightarrow>
                (case seeding ev of
                   Some e \<Rightarrow> Inl e
                 | None \<Rightarrow>
                    (if \<not> do_train a \<and> \<not> do_eval a then
                       Inl (ValueError
                              ''At least one of `do_train` or `do_eval` must be True.'')
                     else
                       (case output_dir_in_use ev a of
                          Inl e \<Rightarrow> Inl e
                        | Inr in_use \<Rightarrow>
                           (if in_use then
                              Inl (ValueError (''Output directory ('' @ output_dir a
                                     @ '') already exists and is not empty.''))
                            else
                              (case makedirs ev (output_dir a) of
                                 Some e \<Rightarrow> Inl e
                               | None \<Rightarrow>
                                  (case select_task ev (task_name a) of
                                     Inl e \<Rightarrow> Inl e
                                   | Inr (p, num_labels, label_list) \<Rightarrow>
                                       Inr (int_of_float q, p, num_labels,
                                            label_list))))))))))"

section \<open>Properties of \_truncate\_seq\_pair\<close>

lemma truncate_seq_pair_exit:
  "int (length a) + int (length b) \<le> m \<Longrightarrow> truncate_seq_pair a b m = Some (Inr (a, b))"
  by (subst truncate_seq_pair.simps) simp

lemma truncate_seq_pair_pop_a:
  "\<not> int (length a) + int (length b) \<le> m \<Longrightarrow> length b < length a \<Longrightarrow>
   truncate_seq_pair a b m = truncate_seq_pair (butlast a) b m"
  by (subst truncate_seq_pair.simps) (auto simp: pop_def)

lemma truncate_seq_pair_pop_b:
  "\<not> int (length a) + int (length b) \<le> m \<Longrightarrow> \<not> length b < length a \<Longrightarrow> b \<noteq> [] \<Longrightarrow>
   truncate_seq_pair a b m = truncate_seq_pair a (butlast b) m"
  by (subst truncate_seq_pair.simps) (auto simp: pop_def)

lemma truncate_seq_pair_raise:
  "\<not> int (length a) + int (length b) \<le> m \<Longrightarrow> \<not> length b < length a \<Longrightarrow> b = [] \<Longrightarrow>
   truncate_seq_pair a b m = Some (Inl IndexError)"
  by (subst truncate_seq_pair.simps) (auto simp: pop_def)

lemma truncate_seq_pair_returns: "\<exists>r. truncate_seq_pair a b m = Some r"
proof (induction "length a + length b" arbitrary: a b rule: less_induct)
  case less
  show ?case
  proof (cases "int (length a) + int (length b) \<le> m")
    case True
    then show ?thesis by (simp add: truncate_seq_pair_exit)
  next
    case over: False
    show ?thesis
    proof (cases "length b < length a")
      case True
      then have "length (butlast a) + length b < length a + length b" by simp
      from less [OF this] show ?thesis
        using over True by (simp add: truncate_seq_pair_pop_a)
    next
      case shorter: False
      show ?thesis
      proof (cases "b = []")
        case True
        then show ?thesis using over shorter by (simp add: truncate_seq_pair_raise)
      next
        case False
        then have "length a + length (butlast b) < length a + length b" by simp
        from less [OF this] show ?thesis
          using over shorter False by (simp add: truncate_seq_pair_pop_b)
      qed
    qed
  qed
qed

lemma truncate_seq_pair_fits:
  "0 \<le> m \<Longrightarrow>
   \<exists>a' b'. truncate_seq_pair a b m = Some (Inr (a', b')) \<and> prefix a' a \<and> prefix b' b
     \<and> int (length a') + int (length b') \<le> m"
proof (induction "length a + length b" arbitrary: a b rule: less_induct)
  case less
  show ?case
  proof (cases "int (length a) + int (length b) \<le> m")
    case True
    then show ?thesis by (simp add: truncate_seq_pair_exit)
  next
    case over: False
    show ?thesis
    proof (cases "length b < length a")
      case True
      then have "length (butlast a) + length b < length a + length b" by simp
      from less(1) [OF this less(2)] obtain a' b' where
        r: "truncate_seq_pair (butlast a) b m = Some (Inr (a', b'))"
          "prefix a' (butlast a)" "prefix b' b" "int (length a') + int (length b') \<le> m"
        by blast
      from r(2) have "prefix a' a"
        using prefix_order.order_trans prefixeq_butlast by blast
      with r over True show ?thesis by (simp add: truncate_seq_pair_pop_a)
    next
      case shorter: False
      from over less(2) shorter have ne: "b \<noteq> []" by auto
      then have "length a + length (butlast b) < length a + length b" by simp
      from less(1) [OF this less(2)] obtain a' b' where
        r: "truncate_seq_pair a (butlast b) m = Some (Inr (a', b'))"
          "prefix a' a" "prefix b' (butlast b)" "int (length a') + int (length b') \<le> m"
        by blast
      from r(3) have "prefix b' b"
        using prefix_order.order_trans prefixeq_butlast by blast
      with r over shorter ne show ?thesis by (simp add: truncate_seq_pair_pop_b)
    qed
  qed
qed

section \<open>Properties of the label map\<close>

lemma fold_label_absent:
  "k \<notin> set ls \<Longrightarrow>
   fold label_entry (enumerate n ls) m0 k = m0 k"
  by (induction ls arbitrary: n m0) (auto simp: label_entry_def)

lemma fold_label_index:
  "distinct ls \<Longrightarrow> i < length ls \<Longrightarrow>
   fold label_entry (enumerate n ls) m0 (ls ! i) = Some (int (n + i))"
proof (induction ls arbitrary: n m0 i)
  case Nil
  then show ?case by simp
next
  case (Cons x xs)
  show ?case
  proof (cases i)
    case 0
    from Cons.prems have "x \<notin> set xs" by simp
    from fold_label_absent [OF this, of "Suc n" "label_entry (n, x) m0"]
    have "fold label_entry (enumerate n (x # xs)) m0 x = label_entry (n, x) m0 x" by simp
    also have "\<dots> = Some (int n)" by (simp add: label_entry_def)
    finally show ?thesis using 0 by simp
  next
    case (Suc j)
    with Cons.prems have "j < length xs" "distinct xs" by simp_all
    from Cons.IH [OF this(2) this(1), of "Suc n"] Suc show ?thesis by simp
  qed
qed

lemma fold_label_dom:
  "dom (fold label_entry (enumerate n ls) m0) = dom m0 \<union> set ls"
  by (induction ls arbitrary: n m0) (auto simp: label_entry_def)

lemma label_map_index:
  "distinct ls \<Longrightarrow> i < length ls \<Longrightarrow> label_map ls (ls ! i) = Some (int i)"
  using fold_label_index [of ls i 0 Map.empty] by (simp add: label_map_def)

lemma label_map_dom: "dom (label_map ls) = set ls"
  by (simp add: label_map_def fold_label_dom)

lemma label_map_bij:
  assumes "distinct ls"
  shows "bij_betw (\<lambda>l. the (label_map ls l)) (set ls) {0..<int (length ls)}"
proof (rule bij_betwI')
  fix x y
  assume "x \<in> set ls" "y \<in> set ls"
  then obtain i j where ij: "i < length ls" "x = ls ! i" "j < length ls" "y = ls ! j"
    by (auto simp: in_set_conv_nth)
  with assms show "(the (label_map ls x) = the (label_map ls y)) = (x = y)"
    by (auto simp: label_map_index nth_eq_iff_index_eq)
next
  fix x
  assume "x \<in> set ls"
  then obtain i where "i < length ls" "x = ls ! i"
    by (auto simp: in_set_conv_nth)
  with assms show "the (label_map ls x) \<in> {0..<int (length ls)}"
    by (simp add: label_map_index)
next
  fix k
  assume "k \<in> {0..<int (length ls)}"
  then have "nat k < length ls" "int (nat k) = k" by auto
  with assms have "ls ! nat k \<in> set ls" "k = the (label_map ls (ls ! nat k))"
    by (simp_all add: label_map_index)
  then show "\<exists>x\<in>set ls. k = the (label_map ls x)" by blast
qed

section \<open>Properties of the converters\<close>

lemma length_truncate_tokens:
  "2 \<le> m \<Longrightarrow> int (length (truncate_tokens xs m)) \<le> m - 2"
  by (auto simp: truncate_tokens_def slice_to_def)

lemma prefix_truncate_tokens: "prefix (truncate_tokens xs m) xs"
  by (simp add: truncate_tokens_def slice_to_def take_is_prefix)

lemma lookup_label_member:
  "l \<in> set ls \<Longrightarrow> \<exists>i. lookup_label (label_map ls) (Some l) = Inr i"
proof -
  assume "l \<in> set ls"
  then have "l \<in> dom (label_map ls)" by (simp add: label_map_def fold_label_dom)
  then show ?thesis by (auto simp: lookup_label_def)
qed

lemma build_features_Inr:
  assumes "build_features lm m tk lbl a b = Inr f"
  shows "int (length (input_ids f)) = m \<and> int (length (input_mask f)) = m
         \<and> int (length (segment_ids f)) = m
         \<and> lookup_label lm lbl = Inr (InputFeatures.label_id f)"
  using assms
  by (auto simp: build_features_def Let_def split: if_splits sum.splits)

lemma build_features_ok:
  assumes fit: "int (length a) + 2
            + (case b of None \<Rightarrow> 0 | Some bs \<Rightarrow> if bs = [] then 0 else int (length bs) + 1) \<le> m"
    and lbl: "lookup_label lm lbl = Inr i"
  shows "\<exists>f. build_features lm m tk lbl a b = Inr f"
proof (cases b)
  case None
  with fit lbl show ?thesis
    by (simp add: build_features_def Let_def repeat_def convert_tokens_to_ids_def)
next
  case (Some bs)
  with fit lbl show ?thesis
    by (cases "bs = []")
       (simp_all add: build_features_def Let_def repeat_def convert_tokens_to_ids_def)
qed

lemma relevance_Inr:
  assumes "example_to_relevance_features lm m tk ex = Inr f"
  shows "int (length (query_ids f)) = m \<and> int (length (psg_ids f)) = m
         \<and> int (length (query_mask f)) = m \<and> int (length (psg_mask f)) = m
         \<and> int (length (query_segment_ids f)) = m \<and> int (length (psg_segment_ids f)) = m
         \<and> lookup_label lm (label ex) = Inr (RelevanceFeatures.label_id f)"
  using assms
  by (auto simp: example_to_relevance_features_def Let_def split: option.splits if_splits sum.splits)

lemma tokenize_example_ok:
  assumes "2 \<le> m" and "truthy (text_b ex) \<longrightarrow> 3 \<le> m"
  shows "\<exists>a b. tokenize_example m tk ex = Some (Inr (a, b))
           \<and> int (length a) + 2
              + (case b of None \<Rightarrow> 0 | Some bs \<Rightarrow> if bs = [] then 0 else int (length bs) + 1) \<le> m"
proof (cases "truthy (text_b ex)")
  case False
  then have "tokenize_example m tk ex
               = Some (Inr (truncate_tokens (tokenize tk (text_a ex)) m, None))"
    by (auto simp: tokenize_example_def truthy_def split: option.splits)
  with length_truncate_tokens [OF assms(1), of "tokenize tk (text_a ex)"] show ?thesis
    by simp
next
  case True
  then obtain tb where tb: "text_b ex = Some tb" "tb \<noteq> []"
    by (auto simp: truthy_def split: option.splits)
  from True assms(2) have "0 \<le> m - 3" by simp
  from truncate_seq_pair_fits [OF this, of "tokenize tk (text_a ex)" "tokenize tk tb"]
  obtain a' b' where
    r: "truncate_seq_pair (tokenize tk (text_a ex)) (tokenize tk tb) (m - 3) = Some (Inr (a', b'))"
       "int (length a') + int (length b') \<le> m - 3"
    by blast
  with tb show ?thesis by (auto simp: tokenize_example_def)
qed

lemma example_to_features_Inr:
  assumes "example_to_features lm m tk ex = Some (Inr f)"
  shows "int (length (input_ids f)) = m \<and> int (length (input_mask f)) = m
         \<and> int (length (segment_ids f)) = m
         \<and> lookup_label lm (label ex) = Inr (InputFeatures.label_id f)"
proof -
  from assms obtain a b where "build_features lm m tk (label ex) a b = Inr f"
    by (auto simp: example_to_features_def split: option.splits sum.splits)
  then show ?thesis by (rule build_features_Inr)
qed

lemma example_to_features_ok:
  assumes "2 \<le> m" and "truthy (text_b ex) \<longrightarrow> 3 \<le> m"
    and "lookup_label lm (label ex) = Inr i"
  shows "\<exists>f. example_to_features lm m tk ex = Some (Inr f)"
proof -
  from tokenize_example_ok [OF assms(1,2), of tk] obtain a b where
    t: "tokenize_example m tk ex = Some (Inr (a, b))"
    and fit: "int (length a) + 2
              + (case b of None \<Rightarrow> 0 | Some bs \<Rightarrow> if bs = [] then 0 else int (length bs) + 1) \<le> m"
    by blast
  from build_features_ok [OF fit assms(3), of tk] obtain f where
    "build_features lm m tk (label ex) a b = Inr f" by blast
  with t show ?thesis by (simp add: example_to_features_def)
qed

lemma features_loop_Inr:
  "features_loop lm m tk exs = Some (Inr fs) \<Longrightarrow>
   list_all2 (\<lambda>ex f. int (length (input_ids f)) = m \<and> int (length (input_mask f)) = m
                \<and> int (length (segment_ids f)) = m
                \<and> lookup_label lm (label ex) = Inr (InputFeatures.label_id f)) exs fs"
proof (induction exs arbitrary: fs)
  case Nil
  then show ?case by simp
next
  case (Cons ex exs)
  from Cons.prems obtain f fs' where
    f: "example_to_features lm m tk ex = Some (Inr f)"
    and fs': "features_loop lm m tk exs = Some (Inr fs')" and fs: "fs = f # fs'"
    by (auto split: option.splits sum.splits)
  from example_to_features_Inr [OF f] Cons.IH [OF fs'] fs show ?case by simp
qed

lemma features_loop_ok:
  assumes "2 \<le> m"
    and "\<forall>ex\<in>set exs. (truthy (text_b ex) \<longrightarrow> 3 \<le> m)
           \<and> (\<exists>i. lookup_label lm (label ex) = Inr i)"
  shows "\<exists>fs. features_loop lm m tk exs = Some (Inr fs)"
  using assms(2)
proof (induction exs)
  case Nil
  then show ?case by simp
next
  case (Cons ex exs)
  then obtain i where "truthy (text_b ex) \<longrightarrow> 3 \<le> m" "lookup_label lm (label ex) = Inr i"
    by auto
  from example_to_features_ok [OF assms(1) this, of tk] obtain f where
    "example_to_features lm m tk ex = Some (Inr f)" by blast
  moreover from Cons obtain fs where "features_loop lm m tk exs = Some (Inr fs)" by auto
  ultimately show ?case by simp
qed

lemma relevance_ok:
  assumes "2 \<le> m" and "text_b ex = Some tb" and "lookup_label lm (label ex) = Inr i"
  shows "\<exists>f. example_to_relevance_features lm m tk ex = Inr f"
  using assms length_truncate_tokens [OF assms(1), of "tokenize tk (text_a ex)"]
    length_truncate_tokens [OF assms(1), of "tokenize tk tb"]
  by (simp add: example_to_relevance_features_def Let_def repeat_def convert_tokens_to_ids_def)

lemma relevance_no_assertion:
  assumes "2 \<le> m"
  shows "example_to_relevance_features lm m tk ex \<noteq> Inl AssertionError"
proof (cases "text_b ex")
  case None
  then show ?thesis by (simp add: example_to_relevance_features_def)
next
  case (Some tb)
  with assms length_truncate_tokens [OF assms(1), of "tokenize tk (text_a ex)"]
    length_truncate_tokens [OF assms(1), of "tokenize tk tb"]
  show ?thesis
    by (auto simp: example_to_relevance_features_def Let_def repeat_def convert_tokens_to_ids_def
          lookup_label_def split: option.splits)
qed

lemma relevance_loop_Inr:
  "relevance_loop lm m tk exs = Inr fs \<Longrightarrow>
   list_all2 (\<lambda>ex f. example_to_relevance_features lm m tk ex = Inr f) exs fs"
proof (induction exs arbitrary: fs)
  case Nil
  then show ?case by simp
next
  case (Cons ex exs)
  then show ?case by (auto split: sum.splits)
qed

lemma relevance_loop_no_assertion:
  "2 \<le> m \<Longrightarrow> relevance_loop lm m tk exs \<noteq> Inl AssertionError"
proof (induction exs)
  case Nil
  then show ?case by simp
next
  case (Cons ex exs)
  with relevance_no_assertion [of m lm tk ex] show ?case
    by (auto split: sum.splits)
qed

lemma relevance_loop_ok:
  assumes "2 \<le> m"
    and "\<forall>ex\<in>set exs. text_b ex \<noteq> None \<and> (\<exists>i. lookup_label lm (label ex) = Inr i)"
  shows "\<exists>fs. relevance_loop lm m tk exs = Inr fs"
  using assms(2)
proof (induction exs)
  case Nil
  then show ?case by simp
next
  case (Cons ex exs)
  then obtain tb i where "text_b ex = Some tb" "lookup_label lm (label ex) = Inr i"
    by auto
  from relevance_ok [OF assms(1) this, of tk] obtain f where
    "example_to_relevance_features lm m tk ex = Inr f" by blast
  moreover from Cons obtain fs where "relevance_loop lm m tk exs = Inr fs" by auto
  ultimately show ?case by simp
qed

lemma features_loop_each:
  "features_loop lm m tk exs = Some (Inr fs) \<Longrightarrow>
   list_all2 (\<lambda>ex f. example_to_features lm m tk ex = Some (Inr f)) exs fs"
proof (induction exs arbitrary: fs)
  case Nil
  then show ?case by simp
next
  case (Cons ex exs)
  then show ?case by (auto split: option.splits sum.splits)
qed

lemma nat_int_add2: "nat (int n + 2) = Suc (Suc n)"
  by linarith

lemma relevance_sides:
  assumes "example_to_relevance_features lm m tk ex = Inr g"
  shows "\<exists>tb. text_b ex = Some tb \<and>
           (let ka = truncate_tokens (tokenize tk (text_a ex)) m;
                kb = truncate_tokens (tokenize tk tb) m
            in int (length ka) \<le> m - 2 \<and> int (length kb) \<le> m - 2
               \<and> query_ids g = convert_tokens_to_ids tk ([''[CLS]''] @ ka @ [''[SEP]''])
                                 @ repeat 0 (m - (int (length ka) + 2))
               \<and> query_mask g = repeat 1 (int (length ka) + 2)
                                 @ repeat 0 (m - (int (length ka) + 2))
               \<and> psg_ids g = convert_tokens_to_ids tk ([''[CLS]''] @ kb @ [''[SEP]''])
                               @ repeat 0 (m - (int (length kb) + 2))
               \<and> psg_mask g = repeat 1 (int (length kb) + 2)
                                @ repeat 0 (m - (int (length kb) + 2))
               \<and> query_segment_ids g = repeat 0 m \<and> psg_segment_ids g = repeat 0 m)"
proof -
  from assms obtain tb where tb: "text_b ex = Some tb"
    by (cases "text_b ex") (simp_all add: example_to_relevance_features_def)
  define ka where "ka = truncate_tokens (tokenize tk (text_a ex)) m"
  define kb where "kb = truncate_tokens (tokenize tk tb) m"
  from assms tb have
    la: "int (length ka) + 2 + int (nat (m - (int (length ka) + 2))) = m"
    and lb: "int (length kb) + 2 + int (nat (m - (int (length kb) + 2))) = m"
    and g: "query_ids g = convert_tokens_to_ids tk ([''[CLS]''] @ ka @ [''[SEP]''])
                                 @ repeat 0 (m - (int (length ka) + 2))"
      "query_mask g = repeat 1 (int (length ka) + 2) @ repeat 0 (m - (int (length ka) + 2))"
      "psg_ids g = convert_tokens_to_ids tk ([''[CLS]''] @ kb @ [''[SEP]''])
                               @ repeat 0 (m - (int (length kb) + 2))"
      "psg_mask g = repeat 1 (int (length kb) + 2) @ repeat 0 (m - (int (length kb) + 2))"
      "query_segment_ids g = repeat 0 (int (length ka) + 2) @ repeat 0 (m - (int (length ka) + 2))"
      "psg_segment_ids g = repeat 0 (int (length kb) + 2) @ repeat 0 (m - (int (length kb) + 2))"
    by (auto simp: example_to_relevance_features_def Let_def ka_def kb_def
          convert_tokens_to_ids_def repeat_def nat_int_add2 split: if_splits sum.splits)
  from la have ka: "int (length ka) \<le> m - 2" by linarith
  from lb have kb: "int (length kb) \<le> m - 2" by linarith
  from ka have "repeat (0::int) (int (length ka) + 2) @ repeat 0 (m - (int (length ka) + 2))
                 = repeat 0 m"
    by (simp add: repeat_def replicate_add [symmetric] del: replicate_Suc)
  moreover
  from kb have "repeat (0::int) (int (length kb) + 2) @ repeat 0 (m - (int (length kb) + 2))
                 = repeat 0 m"
    by (simp add: repeat_def replicate_add [symmetric] del: replicate_Suc)
  ultimately show ?thesis
    using tb ka kb g by (simp add: Let_def ka_def kb_def)
qed

lemma single_side:
  assumes "example_to_features lm m tk ex = Some (Inr f)" and "\<not> truthy (text_b ex)"
  shows "(let kept = truncate_tokens (tokenize tk (text_a ex)) m
          in int (length kept) \<le> m - 2
             \<and> input_ids f = convert_tokens_to_ids tk ([''[CLS]''] @ kept @ [''[SEP]''])
                               @ repeat 0 (m - (int (length kept) + 2))
             \<and> input_mask f = repeat 1 (int (length kept) + 2)
                                @ repeat 0 (m - (int (length kept) + 2)))"
proof -
  define kept where "kept = truncate_tokens (tokenize tk (text_a ex)) m"
  from assms(2) have "tokenize_example m tk ex = Some (Inr (kept, None))"
    by (auto simp: tokenize_example_def truthy_def kept_def split: option.splits)
  with assms(1) have b: "build_features lm m tk (label ex) kept None = Inr f"
    by (simp add: example_to_features_def)
  then have
    l: "int (length kept) + 2 + int (nat (m - (int (length kept) + 2))) = m"
    and g: "input_ids f = convert_tokens_to_ids tk ([''[CLS]''] @ kept @ [''[SEP]''])
                               @ repeat 0 (m - (int (length kept) + 2))"
      "input_mask f = repeat 1 (int (length kept) + 2) @ repeat 0 (m - (int (length kept) + 2))"
    by (auto simp: build_features_def Let_def convert_tokens_to_ids_def repeat_def nat_int_add2
          split: if_splits sum.splits)
  from l have "int (length kept) \<le> m - 2" by linarith
  with g show ?thesis by (simp add: Let_def kept_def)
qed

lemma list_all2_setD:
  "list_all2 P xs ys \<Longrightarrow> y \<in> set ys \<Longrightarrow> \<exists>x\<in>set xs. P x y"
  by (induction rule: list_all2_induct) auto

section \<open>Concrete runs\<close>

lemma run_features:
  "convert_examples_to_features
     [\<lparr>guid = ''train-0'', text_a = ''abcdef'', text_b = Some ''xy'', label = Some ''1''\<rparr>,
      \<lparr>guid = ''train-1'', text_a = ''abcdef'', text_b = None, label = Some ''0''\<rparr>]
     [''0'', ''1''] 6 char_tokenizer
   = Some (Inr [\<lparr>input_ids = [5, 1, 1, 5, 1, 5], input_mask = [1, 1, 1, 1, 1, 1],
                  segment_ids = [0, 0, 0, 0, 1, 1], label_id = 1\<rparr>,
                \<lparr>input_ids = [5, 1, 1, 1, 1, 5], input_mask = [1, 1, 1, 1, 1, 1],
                  segment_ids = [0, 0, 0, 0, 0, 0], label_id = 0\<rparr>])"
  by (simp add: convert_examples_to_features_def label_map_def label_entry_def
        example_to_features_def tokenize_example_def truncate_tokens_def slice_to_def
        build_features_def Let_def repeat_def convert_tokens_to_ids_def char_tokenizer_def
        lookup_label_def truncate_seq_pair.simps pop_def eval_nat_numeral)

lemma run_relevance:
  "convert_examples_to_relevance_features
     [\<lparr>guid = ''train-0'', text_a = ''abcdef'', text_b = Some ''xy'', label = Some ''1''\<rparr>]
     [''0'', ''1''] 6 char_tokenizer
   = Inr [\<lparr>query_ids = [5, 1, 1, 1, 1, 5], psg_ids = [5, 1, 1, 5, 0, 0],
            query_mask = [1, 1, 1, 1, 1, 1], psg_mask = [1, 1, 1, 1, 0, 0],
            query_segment_ids = [0, 0, 0, 0, 0, 0],
            psg_segment_ids = [0, 0, 0, 0, 0, 0], label_id = 1\<rparr>]"
  by (simp add: convert_examples_to_relevance_features_def label_map_def label_entry_def
        example_to_relevance_features_def truncate_tokens_def slice_to_def
        Let_def repeat_def convert_tokens_to_ids_def char_tokenizer_def
        lookup_label_def eval_nat_numeral)

lemma lookup_label_Some:
  "lookup_label lm lbl = Inr i \<Longrightarrow> \<exists>l. lbl = Some l \<and> lm l = Some i"
  by (auto simp: lookup_label_def split: option.splits)

lemma repeat_replicate: "repeat v m = replicate (nat m) v"
  by (simp add: repeat_def)

lemma sum_list_mask:
  "0 \<le> n \<Longrightarrow> sum_list (repeat (1::int) n @ repeat 0 k) = n"
  by (simp add: repeat_def sum_list_replicate)

lemma item_last: "xs \<noteq> [] \<Longrightarrow> item xs (- 1) = Inr (last xs)"
  by (cases xs rule: rev_cases) (auto simp: item_def nat_add_distrib)

lemma mrpc_example_ok:
  "5 \<le> length line \<Longrightarrow>
   mrpc_example set_type i line
     = Inr \<lparr>guid = set_type @ ''-'' @ str_nat i, text_a = line ! 3, text_b = Some (line ! 4),
            label = Some (line ! 0)\<rparr>"
  by (auto simp: mrpc_example_def item_def)

lemma mnli_example_ok:
  "10 \<le> length line \<Longrightarrow>
   mnli_example set_type line
     = Inr \<lparr>guid = set_type @ ''-'' @ line ! 0, text_a = line ! 8, text_b = Some (line ! 9),
            label = Some (last line)\<rparr>"
  using item_last [of line]
  by (auto simp: mnli_example_def item_def)

lemma cola_example_ok:
  "4 \<le> length line \<Longrightarrow>
   cola_example set_type i line
     = Inr \<lparr>guid = set_type @ ''-'' @ str_nat i, text_a = line ! 3, text_b = None,
            label = Some (line ! 1)\<rparr>"
  by (simp add: cola_example_def item_def)

lemma textqna_example_ok:
  "3 \<le> length line \<Longrightarrow>
   textqna_example set_type i line
     = Inr \<lparr>guid = set_type @ ''-'' @ str_nat i, text_a = line ! 0, text_b = Some (line ! 1),
            label = Some (line ! 2)\<rparr>"
  by (auto simp: textqna_example_def item_def)

lemma mrpc_rows_ok:
  "0 < i \<Longrightarrow> \<forall>line\<in>set lines. 5 \<le> length line \<Longrightarrow>
   \<exists>exs. mrpc_rows set_type i lines = Inr exs \<and> length exs = length lines
     \<and> map text_a exs = map (\<lambda>line. line ! 3) lines"
proof (induction lines arbitrary: i)
  case Nil
  then show ?case by simp
next
  case (Cons line lines)
  from Cons.prems have "5 \<le> length line" "\<forall>line\<in>set lines. 5 \<le> length line" by simp_all
  from Cons.IH [OF _ this(2), of "Suc i"] obtain exs where
    "mrpc_rows set_type (Suc i) lines = Inr exs" "length exs = length lines"
    "map text_a exs = map (\<lambda>line. line ! 3) lines" by auto
  with Cons.prems(1) \<open>5 \<le> length line\<close> show ?case
    by (simp add: mrpc_example_ok)
qed

lemma mnli_rows_ok:
  "0 < i \<Longrightarrow> \<forall>line\<in>set lines. 10 \<le> length line \<Longrightarrow>
   \<exists>exs. mnli_rows set_type i lines = Inr exs \<and> length exs = length lines
     \<and> map text_a exs = map (\<lambda>line. line ! 8) lines"
proof (induction lines arbitrary: i)
  case Nil
  then show ?case by simp
next
  case (Cons line lines)
  from Cons.prems have "10 \<le> length line" "\<forall>line\<in>set lines. 10 \<le> length line" by simp_all
  from Cons.IH [OF _ this(2), of "Suc i"] obtain exs where
    "mnli_rows set_type (Suc i) lines = Inr exs" "length exs = length lines"
    "map text_a exs = map (\<lambda>line. line ! 8) lines" by auto
  with Cons.prems(1) \<open>10 \<le> length line\<close> show ?case
    by (simp add: mnli_example_ok)
qed

lemma cola_rows_ok:
  "\<forall>line\<in>set lines. 4 \<le> length line \<Longrightarrow>
   \<exists>exs. cola_rows set_type i lines = Inr exs \<and> length exs = length lines
     \<and> map text_a exs = map (\<lambda>line. line ! 3) lines"
proof (induction lines arbitrary: i)
  case Nil
  then show ?case by simp
next
  case (Cons line lines)
  from Cons.prems have "4 \<le> length line" "\<forall>line\<in>set lines. 4 \<le> length line" by simp_all
  from Cons.IH [OF this(2), of "Suc i"] obtain exs where
    "cola_rows set_type (Suc i) lines = Inr exs" "length exs = length lines"
    "map text_a exs = map (\<lambda>line. line ! 3) lines" by auto
  with \<open>4 \<le> length line\<close> show ?case
    by (simp add: cola_example_ok)
qed

lemma textqna_rows_ok:
  "\<forall>line\<in>set lines. 3 \<le> length line \<Longrightarrow>
   \<exists>exs. textqna_rows set_type i lines = Inr exs \<and> length exs = length lines
     \<and> map text_a exs = map (\<lambda>line. line ! 0) lines"
proof (induction lines arbitrary: i)
  case Nil
  then show ?case by simp
next
  case (Cons line lines)
  from Cons.prems have "3 \<le> length line" "\<forall>line\<in>set lines. 3 \<le> length line" by simp_all
  from Cons.IH [OF this(2), of "Suc i"] obtain exs where
    "textqna_rows set_type (Suc i) lines = Inr exs" "length exs = length lines"
    "map text_a exs = map (\<lambda>line. line ! 0) lines" by auto
  with \<open>3 \<le> length line\<close> show ?case
    by (simp add: textqna_example_ok)
qed

section \<open>Properties of the double-precision arithmetic\<close>

lemma pow2_powr: "pow2 e = 2 powr (of_int e)"
  by (simp add: pow2_def powr_int)

lemma pow2_pos [simp]: "0 < pow2 e"
  by (simp add: pow2_powr)

lemma pow2_add: "pow2 (a + b) = pow2 a * pow2 b"
  by (simp add: pow2_powr powr_add)

lemma pow2_mono: "a \<le> b \<Longrightarrow> pow2 a \<le> pow2 b"
  by (simp add: pow2_powr)

lemma pow2_int: "0 \<le> e \<Longrightarrow> pow2 e = of_int (2 ^ nat e)"
  by (simp add: pow2_def)

lemma floor_log2_bounds:
  "0 < x \<Longrightarrow> pow2 (floor_log2 x) \<le> x \<and> x < pow2 (floor_log2 x + 1)"
proof (induction x rule: floor_log2.induct)
  case (1 x)
  show ?case
  proof (cases "x < 1")
    case True
    with "1.prems" have "pow2 (floor_log2 (2 * x)) \<le> 2 * x \<and> 2 * x < pow2 (floor_log2 (2 * x) + 1)"
      using "1.IH"(1) by simp
    moreover have "floor_log2 x = floor_log2 (2 * x) - 1"
      using True "1.prems" by (subst floor_log2.simps) simp
    moreover have "pow2 (floor_log2 (2 * x)) = 2 * pow2 (floor_log2 (2 * x) - 1)"
      using pow2_add [of "floor_log2 (2 * x) - 1" 1] by (simp add: pow2_def)
    moreover have "pow2 (floor_log2 (2 * x) + 1) = 2 * pow2 (floor_log2 (2 * x))"
      using pow2_add [of "floor_log2 (2 * x)" 1] by (simp add: pow2_def)
    ultimately show ?thesis by simp
  next
    case ge1: False
    show ?thesis
    proof (cases "2 \<le> x")
      case True
      with "1.prems" ge1 have
        "pow2 (floor_log2 (x / 2)) \<le> x / 2 \<and> x / 2 < pow2 (floor_log2 (x / 2) + 1)"
        using "1.IH"(2) by simp
      moreover have "floor_log2 x = floor_log2 (x / 2) + 1"
        using True ge1 "1.prems" by (subst floor_log2.simps) simp
      moreover have "pow2 (floor_log2 (x / 2) + 1) = 2 * pow2 (floor_log2 (x / 2))"
        using pow2_add [of "floor_log2 (x / 2)" 1] by (simp add: pow2_def)
      moreover have "pow2 (floor_log2 (x / 2) + 1 + 1) = 2 * pow2 (floor_log2 (x / 2) + 1)"
        using pow2_add [of "floor_log2 (x / 2) + 1" 1] by (simp add: pow2_def)
      ultimately show ?thesis by simp
    next
      case False
      with ge1 "1.prems" have "floor_log2 x = 0" by (subst floor_log2.simps) simp
      with ge1 False show ?thesis by (simp add: pow2_def)
    qed
  qed
qed

lemma floor_log2_mono:
  assumes "0 < x" "x \<le> y"
  shows "floor_log2 x \<le> floor_log2 y"
proof (rule ccontr)
  assume "\<not> floor_log2 x \<le> floor_log2 y"
  then have "floor_log2 y + 1 \<le> floor_log2 x" by simp
  then have "pow2 (floor_log2 y + 1) \<le> pow2 (floor_log2 x)" by (rule pow2_mono)
  moreover from assms floor_log2_bounds [of x] floor_log2_bounds [of y]
  have "pow2 (floor_log2 x) \<le> x" "y < pow2 (floor_log2 y + 1)" by simp_all
  ultimately show False using assms by linarith
qed

lemma pow2_nonneg [simp]: "0 \<le> pow2 e"
  by (rule less_imp_le) (rule pow2_pos)

lemma round_half_even_int [simp]: "round_half_even (of_int k) = k"
  by (simp add: round_half_even_def)

lemma round_half_even_numeral [simp]: "round_half_even (numeral k) = numeral k"
  using round_half_even_int [of "numeral k"] by simp

lemma round_half_even_range: "\<lfloor>q\<rfloor> \<le> round_half_even q \<and> round_half_even q \<le> \<lfloor>q\<rfloor> + 1"
  by (simp add: round_half_even_def Let_def)

lemma round_half_even_mono:
  assumes "q \<le> q'"
  shows "round_half_even q \<le> round_half_even q'"
proof (cases "\<lfloor>q\<rfloor> = \<lfloor>q'\<rfloor>")
  case True
  with assms have "q - of_int \<lfloor>q\<rfloor> \<le> q' - of_int \<lfloor>q'\<rfloor>" by simp
  with True show ?thesis by (auto simp: round_half_even_def Let_def)
next
  case False
  with assms have "\<lfloor>q\<rfloor> + 1 \<le> \<lfloor>q'\<rfloor>" using floor_mono [of q q'] by linarith
  with round_half_even_range [of q] round_half_even_range [of q'] show ?thesis by linarith
qed

lemma round_half_even_ge: "of_int k \<le> q \<Longrightarrow> k \<le> round_half_even q"
  using round_half_even_mono [of "of_int k" q] by simp

lemma round_half_even_le: "q \<le> of_int k \<Longrightarrow> round_half_even q \<le> k"
  using round_half_even_mono [of q "of_int k"] by simp

lemma round64_grid_le:
  assumes "0 \<le> n" and "x \<noteq> 0" and "x \<le> pow2 (ulp_exponent x + n)"
  shows "round64 x \<le> pow2 (ulp_exponent x + n)"
proof -
  have g: "pow2 (ulp_exponent x + n) = of_int (2 ^ nat n) * pow2 (ulp_exponent x)"
    using pow2_add [of n "ulp_exponent x"] pow2_int [OF assms(1)] by (simp add: add.commute)
  with assms(3) have "x / pow2 (ulp_exponent x) \<le> of_int (2 ^ nat n)"
    by (simp add: pos_divide_le_eq)
  then have "round_half_even (x / pow2 (ulp_exponent x)) \<le> 2 ^ nat n"
    by (rule round_half_even_le)
  then have "of_int (round_half_even (x / pow2 (ulp_exponent x))) * pow2 (ulp_exponent x)
               \<le> of_int (2 ^ nat n) * pow2 (ulp_exponent x)"
    by (intro mult_right_mono) (simp_all add: less_imp_le)
  with assms(2) g show ?thesis by (simp add: round64_def)
qed

lemma round64_grid_ge:
  assumes "0 \<le> n" and "x \<noteq> 0" and "pow2 (ulp_exponent x + n) \<le> x"
  shows "pow2 (ulp_exponent x + n) \<le> round64 x"
proof -
  have g: "pow2 (ulp_exponent x + n) = of_int (2 ^ nat n) * pow2 (ulp_exponent x)"
    using pow2_add [of n "ulp_exponent x"] pow2_int [OF assms(1)] by (simp add: add.commute)
  with assms(3) have "of_int (2 ^ nat n) \<le> x / pow2 (ulp_exponent x)"
    by (simp add: pos_le_divide_eq)
  then have "2 ^ nat n \<le> round_half_even (x / pow2 (ulp_exponent x))"
    by (rule round_half_even_ge)
  then have "of_int (2 ^ nat n) * pow2 (ulp_exponent x)
               \<le> of_int (round_half_even (x / pow2 (ulp_exponent x))) * pow2 (ulp_exponent x)"
    by (intro mult_right_mono) (simp_all add: less_imp_le)
  with assms(2) g show ?thesis by (simp add: round64_def)
qed

lemma round64_nonneg: "0 \<le> x \<Longrightarrow> 0 \<le> round64 x"
proof (cases "x = 0")
  case True
  then show ?thesis by (simp add: round64_def)
next
  case False
  assume "0 \<le> x"
  then have "of_int 0 \<le> x / pow2 (ulp_exponent x)" by simp
  then have "0 \<le> round_half_even (x / pow2 (ulp_exponent x))" by (rule round_half_even_ge)
  with False show ?thesis by (simp add: round64_def)
qed

lemma round64_mono:
  assumes "0 \<le> x" and "x \<le> y"
  shows "round64 x \<le> round64 y"
proof (cases "x = 0")
  case True
  with assms round64_nonneg [of y] show ?thesis by (simp add: round64_def)
next
  case False
  with assms have x: "0 < x" and y: "0 < y" by simp_all
  from x y assms(2) have fl: "floor_log2 \<bar>x\<bar> \<le> floor_log2 \<bar>y\<bar>"
    by (simp add: floor_log2_mono)
  then have le: "ulp_exponent x \<le> ulp_exponent y" by (simp add: ulp_exponent_def)
  show ?thesis
  proof (cases "ulp_exponent x = ulp_exponent y")
    case True
    from assms(2) have "x / pow2 (ulp_exponent y) \<le> y / pow2 (ulp_exponent y)"
      by (simp add: divide_right_mono less_imp_le)
    then have "round_half_even (x / pow2 (ulp_exponent y))
                 \<le> round_half_even (y / pow2 (ulp_exponent y))"
      by (rule round_half_even_mono)
    then have "of_int (round_half_even (x / pow2 (ulp_exponent y))) * pow2 (ulp_exponent y)
                 \<le> of_int (round_half_even (y / pow2 (ulp_exponent y))) * pow2 (ulp_exponent y)"
      by (intro mult_right_mono) (simp_all add: less_imp_le)
    with True x y show ?thesis by (simp add: round64_def)
  next
    case False
    with le have lt: "ulp_exponent x < ulp_exponent y" by simp
    then have ey: "ulp_exponent y = floor_log2 \<bar>y\<bar> - 52"
      by (auto simp: ulp_exponent_def)
    have ex: "floor_log2 \<bar>x\<bar> - 52 \<le> ulp_exponent x" by (simp add: ulp_exponent_def)
    define n where "n = ulp_exponent y + 52 - ulp_exponent x"
    from lt have n: "0 \<le> n" by (simp add: n_def)
    have g: "ulp_exponent x + n = ulp_exponent y + 52" by (simp add: n_def)
    from ex lt have "floor_log2 \<bar>x\<bar> + 1 \<le> ulp_exponent y + 52" by simp
    then have "pow2 (floor_log2 \<bar>x\<bar> + 1) \<le> pow2 (ulp_exponent y + 52)" by (rule pow2_mono)
    moreover from x floor_log2_bounds [of "\<bar>x\<bar>"] have "x < pow2 (floor_log2 \<bar>x\<bar> + 1)" by simp
    ultimately have "x \<le> pow2 (ulp_exponent x + n)" using g by simp
    from round64_grid_le [OF n _ this] x g
    have 1: "round64 x \<le> pow2 (ulp_exponent y + 52)" by simp
    from y floor_log2_bounds [of "\<bar>y\<bar>"] ey have "pow2 (ulp_exponent y + 52) \<le> y" by simp
    from round64_grid_ge [OF _ _ this] y
    have 2: "pow2 (ulp_exponent y + 52) \<le> round64 y" by simp
    from 1 2 show ?thesis by simp
  qed
qed

lemma round64_1: "round64 1 = 1"
  by (simp add: round64_def ulp_exponent_def floor_log2.simps pow2_def)

lemma round64_0: "round64 0 = 0"
  by (simp add: round64_def)

lemma round_half_even_error: "\<bar>of_int (round_half_even q) - q\<bar> \<le> 1 / 2"
  by (auto simp: round_half_even_def Let_def abs_if) linarith+

lemma round64_error: "\<bar>round64 r - r\<bar> \<le> pow2 (ulp_exponent r) / 2"
proof (cases "r = 0")
  case True
  then show ?thesis by (simp add: round64_def)
next
  case False
  define p where "p = pow2 (ulp_exponent r)"
  have p: "0 < p" by (simp add: p_def)
  have "round64 r = of_int (round_half_even (r / p)) * p"
    using False by (simp add: round64_def p_def)
  then have "round64 r - r = (of_int (round_half_even (r / p)) - r / p) * p"
    using p by (simp add: algebra_simps)
  then have "\<bar>round64 r - r\<bar> = \<bar>of_int (round_half_even (r / p)) - r / p\<bar> * p"
    using p by (simp add: abs_mult)
  also have "\<dots> \<le> (1 / 2) * p"
    using round_half_even_error [of "r / p"] p by (intro mult_right_mono) simp_all
  finally show ?thesis by (simp add: p_def)
qed

lemma round64_error_unit:
  assumes "0 \<le> r" "r \<le> 1"
  shows "\<bar>round64 r - r\<bar> \<le> 1 / 2 ^ 54"
proof (cases "r = 0 \<or> r = 1")
  case True
  then show ?thesis by (auto simp: round64_0 round64_1)
next
  case False
  with assms have r: "0 < r" "r < 1" by simp_all
  from floor_log2_bounds [OF r(1)] r(2) have "pow2 (floor_log2 r) < pow2 0"
    by (simp add: pow2_def)
  then have "floor_log2 r < 0" using pow2_mono [of 0 "floor_log2 r"] by (cases "floor_log2 r < 0") simp_all
  with r have "ulp_exponent r \<le> - 53" by (simp add: ulp_exponent_def)
  then have "pow2 (ulp_exponent r) \<le> pow2 (- 53)" by (rule pow2_mono)
  with round64_error [of r] show ?thesis by (simp add: pow2_def)
qed

lemma round64_unit: "0 \<le> r \<Longrightarrow> r \<le> 1 \<Longrightarrow> 0 \<le> round64 r \<and> round64 r \<le> 1"
  using round64_nonneg [of r] round64_mono [of r 1] by (simp add: round64_1)

lemma to_float_unit: "0 \<le> r \<Longrightarrow> r \<le> 1 \<Longrightarrow> to_float r = Finite (round64 r)"
  using round64_unit [of r] by (simp add: to_float_def Let_def pow2_def)

lemma round64_samples:
  "round64 (1 / 16) = 1 / 16" "round64 (1 / 8) = 1 / 8"
  "round64 (1 / 8 + 1 / 2 ^ 55) = 1 / 8 + 1 / 2 ^ 55"
  "round64 (3 / 4) = 3 / 4" "round64 (3 / 8 + 1 / 2 ^ 54) = 3 / 8 + 1 / 2 ^ 54"
  "round64 (3 / 8 + 1 / 2 ^ 53) = 3 / 8 + 1 / 2 ^ 53"
  "round64 (7 / 8) = 7 / 8"
  by (simp_all add: round64_def ulp_exponent_def floor_log2.simps pow2_def
        round_half_even_def Let_def)

lemma round64_collisions:
  "round64 (1 - 1 / 8) = 7 / 8" "round64 (1 - (1 / 8 + 1 / 2 ^ 55)) = 7 / 8"
  "round64 ((3 / 8 + 1 / 2 ^ 54) / (3 / 4)) = 1 / 2 + 1 / 2 ^ 53"
  "round64 ((3 / 8 + 1 / 2 ^ 53) / (3 / 4)) = 1 / 2 + 1 / 2 ^ 53"
  "round64 (1 - 7 / 8) = 1 / 8"
  by (simp_all add: round64_def ulp_exponent_def floor_log2.simps pow2_def
        round_half_even_def Let_def)

section \<open>Properties of main\<close>

lemma dom_processors: "dom processors = {''cola'', ''mnli'', ''mrpc'', ''textqna''}"
  by (auto simp: processors_def dom_def split: if_splits)

lemma output_dir_in_use_True:
  "do_train a \<Longrightarrow> path_exists ev (output_dir a) \<Longrightarrow>
   listdir ev (output_dir a) = Inr entries \<Longrightarrow> entries \<noteq> [] \<Longrightarrow>
   output_dir_in_use ev a = Inr True"
  by (simp add: output_dir_in_use_def)

lemma select_task_unknown:
  "processors (lower ev name) = None \<Longrightarrow>
   select_task ev name = Inl (ValueError (''Task not found: '' @ lower ev name))"
  by (simp add: select_task_def)

lemma int_truediv_ok:
  assumes "1 \<le> b" and "0 \<le> a" and "a \<le> 2 ^ 1023"
  shows "\<exists>q. int_truediv a b = Inr q"
proof -
  define x :: real where "x = of_int a / of_int b"
  from assms(1,2) have nonneg: "0 \<le> x" by (simp add: x_def)
  from assms(1,2) have "x \<le> of_int a" by (simp add: x_def divide_le_eq mult_le_cancel_left1)
  also from assms(3) have "\<dots> \<le> of_int (2 ^ 1023)" by (rule of_int_le_iff [THEN iffD2])
  also have "\<dots> = pow2 1023" by (simp add: pow2_def)
  finally have le: "x \<le> pow2 1023" .
  have small: "pow2 1023 < pow2 1024" using pow2_add [of 1023 1] by (simp add: pow2_def)
  have "\<bar>round64 x\<bar> < pow2 1024"
  proof (cases "x = 0")
    case True
    then show ?thesis by (simp add: round64_0)
  next
    case False
    with nonneg have pos: "0 < x" by simp
    have fl: "floor_log2 \<bar>x\<bar> \<le> 1023"
    proof (rule ccontr)
      assume "\<not> floor_log2 \<bar>x\<bar> \<le> 1023"
      then have "pow2 1024 \<le> pow2 (floor_log2 \<bar>x\<bar>)" by (intro pow2_mono) simp
      with floor_log2_bounds [of "\<bar>x\<bar>"] pos le small show False by simp
    qed
    define n where "n = 1023 - ulp_exponent x"
    from fl have n: "0 \<le> n" by (simp add: n_def ulp_exponent_def)
    have g: "ulp_exponent x + n = 1023" by (simp add: n_def)
    from le g have "x \<le> pow2 (ulp_exponent x + n)" by simp
    from round64_grid_le [OF n False this] g have "round64 x \<le> pow2 1023" by simp
    with round64_nonneg [OF nonneg] small show ?thesis by simp
  qed
  with assms(1) show ?thesis by (simp add: int_truediv_def x_def Let_def)
qed

lemma main_fails:
  assumes "gradient_accumulation_steps a < 1
     \<or> (\<not> do_train a \<and> \<not> do_eval a)
     \<or> (do_train a \<and> path_exists ev (output_dir a)
          \<and> (\<exists>entries. listdir ev (output_dir a) = Inr entries \<and> entries \<noteq> []))
     \<or> processors (lower ev (task_name a)) = None"
  shows "\<exists>e. main ev a = Inl e"
proof (cases "device_setup ev")
  case (Some e)
  then show ?thesis by (simp add: main_def)
next
  case dev: None
  show ?thesis
  proof (cases "gradient_accumulation_steps a < 1")
    case True
    with dev show ?thesis by (simp add: main_def)
  next
    case gas: False
    show ?thesis
    proof (cases "int_truediv (train_batch_size a) (gradient_accumulation_steps a)")
      case (Inl e)
      with dev gas show ?thesis by (simp add: main_def)
    next
      case q: (Inr q)
      show ?thesis
      proof (cases "seeding ev")
        case (Some e)
        with dev gas q show ?thesis by (simp add: main_def)
      next
        case seed: None
        show ?thesis
        proof (cases "\<not> do_train a \<and> \<not> do_eval a")
          case True
          with dev gas q seed show ?thesis by (simp add: main_def)
        next
          case mode: False
          show ?thesis
          proof (cases "output_dir_in_use ev a")
            case (Inl e)
            with dev gas q seed mode show ?thesis by (simp add: main_def)
          next
            case (Inr in_use)
            show ?thesis
            proof (cases in_use)
              case True
              with Inr dev gas q seed mode show ?thesis by (simp add: main_def)
            next
              case False
              with Inr have free: "output_dir_in_use ev a = Inr False" by simp
              with assms gas mode have task: "processors (lower ev (task_name a)) = None"
                by (auto simp: output_dir_in_use_def)
              show ?thesis
              proof (cases "makedirs ev (output_dir a)")
                case (Some e)
                with dev gas q seed mode free show ?thesis by (simp add: main_def)
              next
                case None
                with dev gas q seed mode free task show ?thesis
                  by (simp add: main_def select_task_unknown)
              qed
            qed
          qed
        qed
      qed
    qed
  qed
qed

lemma pow2_le_cancel: "pow2 a \<le> pow2 b \<Longrightarrow> a \<le> b"
  by (simp add: pow2_powr)

lemma pow2_less_cancel: "pow2 a < pow2 b \<Longrightarrow> a < b"
  by (simp add: pow2_powr)

lemma floor_log2_pow2: "floor_log2 (pow2 k) = k"
proof -
  from floor_log2_bounds [of "pow2 k"]
  have "pow2 (floor_log2 (pow2 k)) \<le> pow2 k" "pow2 k < pow2 (floor_log2 (pow2 k) + 1)"
    by simp_all
  then have "floor_log2 (pow2 k) \<le> k" "k < floor_log2 (pow2 k) + 1"
    by (auto dest: pow2_le_cancel pow2_less_cancel)
  then show ?thesis by simp
qed

lemma round64_pow2:
  assumes "- 1074 \<le> k"
  shows "round64 (pow2 k) = pow2 k"
proof -
  have ne: "pow2 k \<noteq> 0" using pow2_pos [of k] by (rule less_imp_neq [symmetric])
  define n where "n = k - ulp_exponent (pow2 k)"
  from assms have n: "0 \<le> n" by (simp add: n_def ulp_exponent_def floor_log2_pow2)
  have g: "ulp_exponent (pow2 k) + n = k" by (simp add: n_def)
  from round64_grid_le [OF n ne] round64_grid_ge [OF n ne] g show ?thesis by simp
qed

lemma int_truediv_overflow:
  assumes "1 \<le> b" and "2 ^ 1024 * b \<le> a"
  shows "int_truediv a b = Inl OverflowError"
proof -
  define x :: real where "x = of_int a / of_int b"
  from assms(2) have "of_int (2 ^ 1024 * b) \<le> (of_int a :: real)"
    by (rule of_int_le_iff [THEN iffD2])
  with assms(1) have "pow2 1024 \<le> x"
    by (simp add: x_def pow2_def pos_le_divide_eq)
  with round64_mono [of "pow2 1024" x] have "pow2 1024 \<le> round64 x"
    by (simp add: round64_pow2)
  then have "pow2 1024 \<le> \<bar>round64 x\<bar>" by simp
  with assms(1) show ?thesis by (simp add: int_truediv_def x_def Let_def)
qed

lemma ascii_lower_sample:
  "ascii_lower ''SST-2'' = ''sst-2''" "ascii_lower ''TextQnA'' = ''textqna''"
  by (simp_all add: ascii_lower_def ascii_lower_char_def)

lemma str_int_0: "str_int 0 = ''0''"
  by (simp add: str_int_def str_nat.simps digit_def)

lemma int_truediv_sample: "int_truediv 32 1 = Inr 32" "int_of_float 32 = 32"
  by (simp_all add: int_truediv_def int_of_float_def round64_def ulp_exponent_def
        floor_log2.simps pow2_def round_half_even_def Let_def)

section \<open>The claims\<close>

text \<open>
  Claim C9. The loop of \<open>_truncate_seq_pair\<close> terminates for all token lists and every
  \<open>max_length\<close>: the model, in which \<open>None\<close> is a loop that runs forever, always gives
  \<open>Some\<close> result, and for \<open>max_length >= 0\<close> that result is a normal return. An
  iteration that does not exit passes to lists whose combined length is strictly
  smaller; the only other way out is the \<open>IndexError\<close> of \<open>pop\<close> on two empty lists,
  which needs a negative \<open>max_length\<close>.
\<close>

theorem truncate_seq_pair_terminates:
  "(\<exists>r. truncate_seq_pair a b m = Some r)
   \<and> (0 \<le> m \<longrightarrow> (\<exists>a' b'. truncate_seq_pair a b m = Some (Inr (a', b'))))
   \<and> (m < int (length a) + int (length b) \<longrightarrow>
        (if length b < length a then
           truncate_seq_pair a b m = truncate_seq_pair (butlast a) b m
           \<and> length (butlast a) + length b < length a + length b
         else if b \<noteq> [] then
           truncate_seq_pair a b m = truncate_seq_pair a (butlast b) m
           \<and> length a + length (butlast b) < length a + length b
         else truncate_seq_pair a b m = Some (Inl IndexError) \<and> m < 0))"
proof (intro conjI impI)
  show "\<exists>r. truncate_seq_pair a b m = Some r"
    by (rule truncate_seq_pair_returns)
next
  assume "0 \<le> m"
  from truncate_seq_pair_fits [OF this, of a b]
  show "\<exists>a' b'. truncate_seq_pair a b m = Some (Inr (a', b'))" by blast
next
  assume "m < int (length a) + int (length b)"
  then have over: "\<not> int (length a) + int (length b) \<le> m" by simp
  show "if length b < length a then
           truncate_seq_pair a b m = truncate_seq_pair (butlast a) b m
           \<and> length (butlast a) + length b < length a + length b
         else if b \<noteq> [] then
           truncate_seq_pair a b m = truncate_seq_pair a (butlast b) m
           \<and> length a + length (butlast b) < length a + length b
         else truncate_seq_pair a b m = Some (Inl IndexError) \<and> m < 0"
  proof (cases "length b < length a")
    case True
    with over show ?thesis by (simp add: truncate_seq_pair_pop_a)
  next
    case shorter: False
    show ?thesis
    proof (cases "b = []")
      case True
      with over shorter show ?thesis by (simp add: truncate_seq_pair_raise)
    next
      case False
      with over shorter show ?thesis by (simp add: truncate_seq_pair_pop_b)
    qed
  qed
qed

theorem truncate_seq_pair_terminates_witness:
  "(0::int) \<le> 4 \<and> (4::int) < int (length [1, 2, 3::nat]) + int (length [4, 5::nat])
   \<and> truncate_seq_pair [1, 2, 3::nat] [4, 5] 4 = truncate_seq_pair [1, 2] [4, 5] 4
   \<and> truncate_seq_pair [1, 2, 3::nat] [4, 5] 4 = Some (Inr ([1, 2], [4, 5]))"
  using truncate_seq_pair_terminates [of "[1, 2, 3::nat]" "[4, 5]" 4]
  by (simp add: truncate_seq_pair_exit)

text \<open>
  Claim C2. For \<open>max_length >= 0\<close>, \<open>_truncate_seq_pair\<close> stops as soon as the combined
  length fits, and otherwise goes on after removing the last token of \<open>tokens_a\<close> when
  it is strictly longer and the last token of \<open>tokens_b\<close> when it is not (so also when
  the lengths are equal). It returns, each list on return is a prefix of its original
  value, and the combined length is at most \<open>max_length\<close>.
\<close>

theorem truncate_seq_pair_prefixes:
  assumes "0 \<le> m"
  shows "truncate_seq_pair a b m =
           (if int (length a) + int (length b) \<le> m then Some (Inr (a, b))
            else if length a > length b then truncate_seq_pair (butlast a) b m
            else truncate_seq_pair a (butlast b) m)
         \<and> (\<exists>a' b'. truncate_seq_pair a b m = Some (Inr (a', b'))
               \<and> prefix a' a \<and> prefix b' b \<and> int (length a') + int (length b') \<le> m)"
proof
  show "truncate_seq_pair a b m =
           (if int (length a) + int (length b) \<le> m then Some (Inr (a, b))
            else if length a > length b then truncate_seq_pair (butlast a) b m
            else truncate_seq_pair a (butlast b) m)"
  proof (cases "int (length a) + int (length b) \<le> m")
    case True
    then show ?thesis by (simp add: truncate_seq_pair_exit)
  next
    case over: False
    show ?thesis
    proof (cases "length b < length a")
      case True
      with over show ?thesis by (simp add: truncate_seq_pair_pop_a)
    next
      case False
      moreover from over assms False have "b \<noteq> []" by auto
      ultimately show ?thesis using over by (simp add: truncate_seq_pair_pop_b)
    qed
  qed
next
  from truncate_seq_pair_fits [OF assms]
  show "\<exists>a' b'. truncate_seq_pair a b m = Some (Inr (a', b'))
               \<and> prefix a' a \<and> prefix b' b \<and> int (length a') + int (length b') \<le> m" .
qed

theorem truncate_seq_pair_prefixes_witness:
  "(0::int) \<le> 3
   \<and> truncate_seq_pair ''abc'' ''xyz'' 3 = Some (Inr (''ab'', ''x''))
   \<and> prefix ''ab'' ''abc'' \<and> prefix ''x'' ''xyz''"
proof -
  have run: "truncate_seq_pair ''abc'' ''xyz'' 3 = Some (Inr (''ab'', ''x''))"
    by (simp add: truncate_seq_pair.simps pop_def)
  show ?thesis
    using truncate_seq_pair_prefixes [of 3 "''abc''" "''xyz''"] run by simp
qed

text \<open>
  Claim C1. When every label occurs in \<open>label_list\<close> and \<open>max_seq_length >= 2\<close>
  (\<open>>= 3\<close> when an example given to \<open>convert_examples_to_features\<close> has a non-empty
  \<open>text_b\<close>), \<open>convert_examples_to_features\<close> returns one record per example and
  \<open>input_ids\<close>, \<open>input_mask\<close> and \<open>segment_ids\<close> of every record have length
  \<open>max_seq_length\<close>. \<open>convert_examples_to_relevance_features\<close> never fails an
  assertion, the six list fields of every record it returns have length
  \<open>max_seq_length\<close>, and it does return when every example has a \<open>text_b\<close>.
\<close>

theorem feature_lengths:
  assumes labels: "\<forall>ex\<in>set examples. \<exists>l. label ex = Some l \<and> l \<in> set label_list"
    and labels': "\<forall>ex\<in>set pairs. \<exists>l. label ex = Some l \<and> l \<in> set label_list"
    and m: "2 \<le> m"
    and pair: "\<forall>ex\<in>set examples. truthy (text_b ex) \<longrightarrow> 3 \<le> m"
  shows "(\<exists>fs. convert_examples_to_features examples label_list m tk = Some (Inr fs)
            \<and> length fs = length examples
            \<and> (\<forall>f\<in>set fs. int (length (input_ids f)) = m \<and> int (length (input_mask f)) = m
                  \<and> int (length (segment_ids f)) = m))
       \<and> convert_examples_to_relevance_features pairs label_list m tk \<noteq> Inl AssertionError
       \<and> (\<forall>gs. convert_examples_to_relevance_features pairs label_list m tk = Inr gs \<longrightarrow>
             length gs = length pairs
             \<and> (\<forall>g\<in>set gs. int (length (query_ids g)) = m \<and> int (length (psg_ids g)) = m
                   \<and> int (length (query_mask g)) = m \<and> int (length (psg_mask g)) = m
                   \<and> int (length (query_segment_ids g)) = m
                   \<and> int (length (psg_segment_ids g)) = m))
       \<and> ((\<forall>ex\<in>set pairs. text_b ex \<noteq> None) \<longrightarrow>
             (\<exists>gs. convert_examples_to_relevance_features pairs label_list m tk = Inr gs))"
proof (intro conjI allI impI)
  from labels pair have "\<forall>ex\<in>set examples. (truthy (text_b ex) \<longrightarrow> 3 \<le> m)
           \<and> (\<exists>i. lookup_label (label_map label_list) (label ex) = Inr i)"
    using lookup_label_member by fastforce
  from features_loop_ok [OF m this, of tk] obtain fs where
    fs: "features_loop (label_map label_list) m tk examples = Some (Inr fs)" by blast
  from features_loop_Inr [OF fs] have
    "length fs = length examples"
    "\<forall>f\<in>set fs. int (length (input_ids f)) = m \<and> int (length (input_mask f)) = m
        \<and> int (length (segment_ids f)) = m"
    by (auto dest: list_all2_lengthD list_all2_setD)
  with fs show "\<exists>fs. convert_examples_to_features examples label_list m tk = Some (Inr fs)
            \<and> length fs = length examples
            \<and> (\<forall>f\<in>set fs. int (length (input_ids f)) = m \<and> int (length (input_mask f)) = m
                  \<and> int (length (segment_ids f)) = m)"
    by (simp add: convert_examples_to_features_def)
next
  from m show "convert_examples_to_relevance_features pairs label_list m tk \<noteq> Inl AssertionError"
    by (simp add: convert_examples_to_relevance_features_def relevance_loop_no_assertion)
next
  fix gs
  assume "convert_examples_to_relevance_features pairs label_list m tk = Inr gs"
  then have all: "list_all2 (\<lambda>ex g. example_to_relevance_features (label_map label_list) m tk ex = Inr g)
               pairs gs"
    by (simp add: convert_examples_to_relevance_features_def relevance_loop_Inr)
  then show "length gs = length pairs" by (auto dest: list_all2_lengthD)
  show "\<forall>g\<in>set gs. int (length (query_ids g)) = m \<and> int (length (psg_ids g)) = m
                   \<and> int (length (query_mask g)) = m \<and> int (length (psg_mask g)) = m
                   \<and> int (length (query_segment_ids g)) = m
                   \<and> int (length (psg_segment_ids g)) = m"
  proof
    fix g
    assume "g \<in> set gs"
    from list_all2_setD [OF all this] obtain ex where
      "example_to_relevance_features (label_map label_list) m tk ex = Inr g" by blast
    from relevance_Inr [OF this] show "int (length (query_ids g)) = m \<and> int (length (psg_ids g)) = m
                   \<and> int (length (query_mask g)) = m \<and> int (length (psg_mask g)) = m
                   \<and> int (length (query_segment_ids g)) = m
                   \<and> int (length (psg_segment_ids g)) = m" by simp
  qed
next
  assume "\<forall>ex\<in>set pairs. text_b ex \<noteq> None"
  with labels' have "\<forall>ex\<in>set pairs. text_b ex \<noteq> None
           \<and> (\<exists>i. lookup_label (label_map label_list) (label ex) = Inr i)"
    using lookup_label_member by fastforce
  from relevance_loop_ok [OF m this, of tk]
  show "\<exists>gs. convert_examples_to_relevance_features pairs label_list m tk = Inr gs"
    by (simp add: convert_examples_to_relevance_features_def)
qed

theorem feature_lengths_witness:
  "(2::int) \<le> 6
   \<and> convert_examples_to_features
       [\<lparr>guid = ''train-0'', text_a = ''abcdef'', text_b = Some ''xy'', label = Some ''1''\<rparr>,
        \<lparr>guid = ''train-1'', text_a = ''abcdef'', text_b = None, label = Some ''0''\<rparr>]
       [''0'', ''1''] 6 char_tokenizer
     = Some (Inr [\<lparr>input_ids = [5, 1, 1, 5, 1, 5], input_mask = [1, 1, 1, 1, 1, 1],
                    segment_ids = [0, 0, 0, 0, 1, 1], label_id = 1\<rparr>,
                  \<lparr>input_ids = [5, 1, 1, 1, 1, 5], input_mask = [1, 1, 1, 1, 1, 1],
                    segment_ids = [0, 0, 0, 0, 0, 0], label_id = 0\<rparr>])
   \<and> int (length [5, 1, 1, 5, 1, 5 :: int]) = 6
   \<and> convert_examples_to_relevance_features
       [\<lparr>guid = ''train-0'', text_a = ''abcdef'', text_b = Some ''xy'', label = Some ''1''\<rparr>]
       [''0'', ''1''] 6 char_tokenizer
     = Inr [\<lparr>query_ids = [5, 1, 1, 1, 1, 5], psg_ids = [5, 1, 1, 5, 0, 0],
              query_mask = [1, 1, 1, 1, 1, 1], psg_mask = [1, 1, 1, 1, 0, 0],
              query_segment_ids = [0, 0, 0, 0, 0, 0],
              psg_segment_ids = [0, 0, 0, 0, 0, 0], label_id = 1\<rparr>]
   \<and> int (length [5, 1, 1, 5, 0, 0 :: int]) = 6"
  using feature_lengths
    [of "[\<lparr>guid = ''train-0'', text_a = ''abcdef'', text_b = Some ''xy'', label = Some ''1''\<rparr>,
          \<lparr>guid = ''train-1'', text_a = ''abcdef'', text_b = None, label = Some ''0''\<rparr>]"
        "[''0'', ''1'']"
        "[\<lparr>guid = ''train-0'', text_a = ''abcdef'', text_b = Some ''xy'', label = Some ''1''\<rparr>]"
        6 char_tokenizer]
    run_features run_relevance
  by simp

text \<open>
  Claim C4. The single-sequence truncation keeps a prefix of the tokens, at most
  \<open>max_seq_length - 2\<close> of them when \<open>max_seq_length >= 2\<close>, and for an example
  without \<open>text_b\<close> \<open>convert_examples_to_features\<close> applies it to \<open>tokens_a\<close>. In every
  record that \<open>convert_examples_to_features\<close> returns for such an example, the
  content tokens are that prefix, at most \<open>max_seq_length - 2\<close> of them. In every
  record that \<open>convert_examples_to_relevance_features\<close> returns, the query fields are
  built from the at most \<open>max_seq_length - 2\<close> first tokens of \<open>text_a\<close> and the
  passage fields from the at most \<open>max_seq_length - 2\<close> first tokens of \<open>text_b\<close>:
  the tokens kept on one side are a function of that side's text and of
  \<open>max_seq_length\<close> alone.
\<close>

theorem independent_truncation:
  "(2 \<le> m \<longrightarrow> int (length (truncate_tokens toks m)) \<le> m - 2)
   \<and> prefix (truncate_tokens toks m) toks
   \<and> (\<not> truthy (text_b ex) \<longrightarrow>
        tokenize_example m tk ex
          = Some (Inr (truncate_tokens (tokenize tk (text_a ex)) m, None)))
   \<and> (convert_examples_to_features examples label_list m tk = Some (Inr fs) \<longrightarrow>
      list_all2 (\<lambda>ex f. \<not> truthy (text_b ex) \<longrightarrow>
        (let kept = truncate_tokens (tokenize tk (text_a ex)) m
         in prefix kept (tokenize tk (text_a ex)) \<and> int (length kept) \<le> m - 2
            \<and> input_ids f = convert_tokens_to_ids tk ([''[CLS]''] @ kept @ [''[SEP]''])
                              @ repeat 0 (m - (int (length kept) + 2))
            \<and> input_mask f = repeat 1 (int (length kept) + 2)
                               @ repeat 0 (m - (int (length kept) + 2)))) examples fs)
   \<and> (convert_examples_to_relevance_features pairs label_list m tk = Inr gs \<longrightarrow>
      list_all2 (\<lambda>ex g. \<exists>tb. text_b ex = Some tb \<and>
        (let ka = truncate_tokens (tokenize tk (text_a ex)) m;
             kb = truncate_tokens (tokenize tk tb) m
         in prefix ka (tokenize tk (text_a ex)) \<and> prefix kb (tokenize tk tb)
            \<and> int (length ka) \<le> m - 2 \<and> int (length kb) \<le> m - 2
            \<and> query_ids g = convert_tokens_to_ids tk ([''[CLS]''] @ ka @ [''[SEP]''])
                              @ repeat 0 (m - (int (length ka) + 2))
            \<and> query_mask g = repeat 1 (int (length ka) + 2)
                               @ repeat 0 (m - (int (length ka) + 2))
            \<and> psg_ids g = convert_tokens_to_ids tk ([''[CLS]''] @ kb @ [''[SEP]''])
                            @ repeat 0 (m - (int (length kb) + 2))
            \<and> psg_mask g = repeat 1 (int (length kb) + 2)
                             @ repeat 0 (m - (int (length kb) + 2)))) pairs gs)"
proof (intro conjI impI)
  assume "2 \<le> m"
  then show "int (length (truncate_tokens toks m)) \<le> m - 2"
    by (rule length_truncate_tokens)
next
  show "prefix (truncate_tokens toks m) toks" by (rule prefix_truncate_tokens)
next
  assume "\<not> truthy (text_b ex)"
  then show "tokenize_example m tk ex
          = Some (Inr (truncate_tokens (tokenize tk (text_a ex)) m, None))"
    by (auto simp: tokenize_example_def truthy_def split: option.splits)
next
  assume "convert_examples_to_features examples label_list m tk = Some (Inr fs)"
  then have "list_all2 (\<lambda>ex f. example_to_features (label_map label_list) m tk ex = Some (Inr f))
               examples fs"
    by (simp add: convert_examples_to_features_def features_loop_each)
  then show "list_all2 (\<lambda>ex f. \<not> truthy (text_b ex) \<longrightarrow>
        (let kept = truncate_tokens (tokenize tk (text_a ex)) m
         in prefix kept (tokenize tk (text_a ex)) \<and> int (length kept) \<le> m - 2
            \<and> input_ids f = convert_tokens_to_ids tk ([''[CLS]''] @ kept @ [''[SEP]''])
                              @ repeat 0 (m - (int (length kept) + 2))
            \<and> input_mask f = repeat 1 (int (length kept) + 2)
                               @ repeat 0 (m - (int (length kept) + 2)))) examples fs"
  proof (rule list_all2_mono)
    fix ex f
    assume "example_to_features (label_map label_list) m tk ex = Some (Inr f)"
    from single_side [OF this]
    show "\<not> truthy (text_b ex) \<longrightarrow>
        (let kept = truncate_tokens (tokenize tk (text_a ex)) m
         in prefix kept (tokenize tk (text_a ex)) \<and> int (length kept) \<le> m - 2
            \<and> input_ids f = convert_tokens_to_ids tk ([''[CLS]''] @ kept @ [''[SEP]''])
                              @ repeat 0 (m - (int (length kept) + 2))
            \<and> input_mask f = repeat 1 (int (length kept) + 2)
                               @ repeat 0 (m - (int (length kept) + 2)))"
      by (simp add: Let_def prefix_truncate_tokens)
  qed
next
  assume "convert_examples_to_relevance_features pairs label_list m tk = Inr gs"
  then have "list_all2 (\<lambda>ex g. example_to_relevance_features (label_map label_list) m tk ex = Inr g)
               pairs gs"
    by (simp add: convert_examples_to_relevance_features_def relevance_loop_Inr)
  then show "list_all2 (\<lambda>ex g. \<exists>tb. text_b ex = Some tb \<and>
        (let ka = truncate_tokens (tokenize tk (text_a ex)) m;
             kb = truncate_tokens (tokenize tk tb) m
         in prefix ka (tokenize tk (text_a ex)) \<and> prefix kb (tokenize tk tb)
            \<and> int (length ka) \<le> m - 2 \<and> int (length kb) \<le> m - 2
            \<and> query_ids g = convert_tokens_to_ids tk ([''[CLS]''] @ ka @ [''[SEP]''])
                              @ repeat 0 (m - (int (length ka) + 2))
            \<and> query_mask g = repeat 1 (int (length ka) + 2)
                               @ repeat 0 (m - (int (length ka) + 2))
            \<and> psg_ids g = convert_tokens_to_ids tk ([''[CLS]''] @ kb @ [''[SEP]''])
                            @ repeat 0 (m - (int (length kb) + 2))
            \<and> psg_mask g = repeat 1 (int (length kb) + 2)
                             @ repeat 0 (m - (int (length kb) + 2)))) pairs gs"
  proof (rule list_all2_mono)
    fix ex g
    assume "example_to_relevance_features (label_map label_list) m tk ex = Inr g"
    from relevance_sides [OF this]
    show "\<exists>tb. text_b ex = Some tb \<and>
        (let ka = truncate_tokens (tokenize tk (text_a ex)) m;
             kb = truncate_tokens (tokenize tk tb) m
         in prefix ka (tokenize tk (text_a ex)) \<and> prefix kb (tokenize tk tb)
            \<and> int (length ka) \<le> m - 2 \<and> int (length kb) \<le> m - 2
            \<and> query_ids g = convert_tokens_to_ids tk ([''[CLS]''] @ ka @ [''[SEP]''])
                              @ repeat 0 (m - (int (length ka) + 2))
            \<and> query_mask g = repeat 1 (int (length ka) + 2)
                               @ repeat 0 (m - (int (length ka) + 2))
            \<and> psg_ids g = convert_tokens_to_ids tk ([''[CLS]''] @ kb @ [''[SEP]''])
                            @ repeat 0 (m - (int (length kb) + 2))
            \<and> psg_mask g = repeat 1 (int (length kb) + 2)
                             @ repeat 0 (m - (int (length kb) + 2)))"
      by (auto simp: Let_def prefix_truncate_tokens)
  qed
qed

theorem independent_truncation_witness:
  "(2::int) \<le> 6
   \<and> int (length (truncate_tokens (tokenize char_tokenizer ''abcdef'') 6)) \<le> 6 - 2
   \<and> convert_examples_to_features
       [\<lparr>guid = ''train-1'', text_a = ''abcdef'', text_b = None, label = Some ''0''\<rparr>]
       [''0'', ''1''] 6 char_tokenizer
     = Some (Inr [\<lparr>input_ids = [5, 1, 1, 1, 1, 5], input_mask = [1, 1, 1, 1, 1, 1],
                    segment_ids = [0, 0, 0, 0, 0, 0], label_id = 0\<rparr>])
   \<and> \<not> truthy None
   \<and> truncate_tokens (tokenize char_tokenizer ''abcdef'') 6 = [''a'', ''b'', ''c'', ''d'']
   \<and> convert_examples_to_relevance_features
       [\<lparr>guid = ''train-0'', text_a = ''abcdef'', text_b = Some ''xy'', label = Some ''1''\<rparr>]
       [''0'', ''1''] 6 char_tokenizer
     = Inr [\<lparr>query_ids = [5, 1, 1, 1, 1, 5], psg_ids = [5, 1, 1, 5, 0, 0],
              query_mask = [1, 1, 1, 1, 1, 1], psg_mask = [1, 1, 1, 1, 0, 0],
              query_segment_ids = [0, 0, 0, 0, 0, 0],
              psg_segment_ids = [0, 0, 0, 0, 0, 0], label_id = 1\<rparr>]
   \<and> truncate_tokens (tokenize char_tokenizer ''xy'') 6 = [''x'', ''y'']"
proof -
  have single: "convert_examples_to_features
       [\<lparr>guid = ''train-1'', text_a = ''abcdef'', text_b = None, label = Some ''0''\<rparr>]
       [''0'', ''1''] 6 char_tokenizer
     = Some (Inr [\<lparr>input_ids = [5, 1, 1, 1, 1, 5], input_mask = [1, 1, 1, 1, 1, 1],
                    segment_ids = [0, 0, 0, 0, 0, 0], label_id = 0\<rparr>])"
    by (simp add: convert_examples_to_features_def label_map_def label_entry_def
        example_to_features_def tokenize_example_def truncate_tokens_def slice_to_def
        build_features_def Let_def repeat_def convert_tokens_to_ids_def char_tokenizer_def
        lookup_label_def eval_nat_numeral)
  have kept: "truncate_tokens (tokenize char_tokenizer ''abcdef'') 6 = [''a'', ''b'', ''c'', ''d'']"
    "truncate_tokens (tokenize char_tokenizer ''xy'') 6 = [''x'', ''y'']"
    by (simp_all add: truncate_tokens_def slice_to_def char_tokenizer_def eval_nat_numeral)
  show ?thesis
    using independent_truncation
      [of 6 "tokenize char_tokenizer ''abcdef''"
          "\<lparr>guid = ''train-1'', text_a = ''abcdef'', text_b = None, label = Some ''0''\<rparr>"
          char_tokenizer
          "[\<lparr>guid = ''train-1'', text_a = ''abcdef'', text_b = None, label = Some ''0''\<rparr>]"
          "[''0'', ''1'']"
          "[\<lparr>input_ids = [5, 1, 1, 1, 1, 5], input_mask = [1, 1, 1, 1, 1, 1],
                    segment_ids = [0, 0, 0, 0, 0, 0], label_id = 0\<rparr>]"
          "[\<lparr>guid = ''train-0'', text_a = ''abcdef'', text_b = Some ''xy'', label = Some ''1''\<rparr>]"
          "[\<lparr>query_ids = [5, 1, 1, 1, 1, 5], psg_ids = [5, 1, 1, 5, 0, 0],
              query_mask = [1, 1, 1, 1, 1, 1], psg_mask = [1, 1, 1, 1, 0, 0],
              query_segment_ids = [0, 0, 0, 0, 0, 0],
              psg_segment_ids = [0, 0, 0, 0, 0, 0], label_id = 1\<rparr>]"]
      single run_relevance kept
    by (simp add: truthy_def)
qed

text \<open>
  Claim C5. For a duplicate-free label list the label map built by both converters has
  exactly the labels as keys, sends the label at position \<open>i\<close> to \<open>i\<close>, and so is a
  bijection from the labels onto the indices \<open>0..len(label_list)-1\<close>. The map is a
  function of the list alone, so every call with the same list builds the same map.
  Both converters return under the conditions of claim C1, and every record that
  either converter returns carries as \<open>label_id\<close> the value of the map at the
  example's label; for the label list \<open>["0", "1"]\<close> the label \<open>"1"\<close> has index
  1.
\<close>

theorem label_map_bijection:
  assumes "distinct label_list"
  shows "dom (label_map label_list) = set label_list
    \<and> bij_betw (\<lambda>l. the (label_map label_list l)) (set label_list)
         {0..<int (length label_list)}
    \<and> (\<forall>i<length label_list. label_map label_list (label_list ! i) = Some (int i))
    \<and> ((\<forall>ex\<in>set examples. \<exists>l. label ex = Some l \<and> l \<in> set label_list)
         \<and> 2 \<le> m \<and> (\<forall>ex\<in>set examples. truthy (text_b ex) \<longrightarrow> 3 \<le> m) \<longrightarrow>
         (\<exists>fs. convert_examples_to_features examples label_list m tk = Some (Inr fs)
            \<and> list_all2 (\<lambda>ex f. \<exists>l. label ex = Some l
                 \<and> label_map label_list l = Some (InputFeatures.label_id f)) examples fs))
    \<and> (\<forall>fs. convert_examples_to_features examples label_list m tk = Some (Inr fs) \<longrightarrow>
          list_all2 (\<lambda>ex f. \<exists>l. label ex = Some l
             \<and> label_map label_list l = Some (InputFeatures.label_id f)) examples fs)
    \<and> ((\<forall>ex\<in>set pairs. (\<exists>l. label ex = Some l \<and> l \<in> set label_list) \<and> text_b ex \<noteq> None)
         \<and> 2 \<le> m \<longrightarrow>
         (\<exists>gs. convert_examples_to_relevance_features pairs label_list m tk = Inr gs
            \<and> list_all2 (\<lambda>ex g. \<exists>l. label ex = Some l
                 \<and> label_map label_list l = Some (RelevanceFeatures.label_id g)) pairs gs))
    \<and> (\<forall>gs. convert_examples_to_relevance_features pairs label_list m tk = Inr gs \<longrightarrow>
          list_all2 (\<lambda>ex g. \<exists>l. label ex = Some l
             \<and> label_map label_list l = Some (RelevanceFeatures.label_id g)) pairs gs)
    \<and> label_map [''0'', ''1''] ''1'' = Some 1"
proof -
  have feat: "list_all2 (\<lambda>ex f. \<exists>l. label ex = Some l
             \<and> label_map label_list l = Some (InputFeatures.label_id f)) examples fs"
    if "convert_examples_to_features examples label_list m tk = Some (Inr fs)" for fs
  proof -
    from that have "list_all2 (\<lambda>ex f. int (length (input_ids f)) = m
                \<and> int (length (input_mask f)) = m \<and> int (length (segment_ids f)) = m
                \<and> lookup_label (label_map label_list) (label ex)
                    = Inr (InputFeatures.label_id f)) examples fs"
      by (simp add: convert_examples_to_features_def features_loop_Inr)
    then show ?thesis
      by (rule list_all2_mono) (auto dest: lookup_label_Some)
  qed
  have rel: "list_all2 (\<lambda>ex g. \<exists>l. label ex = Some l
             \<and> label_map label_list l = Some (RelevanceFeatures.label_id g)) pairs gs"
    if "convert_examples_to_relevance_features pairs label_list m tk = Inr gs" for gs
  proof -
    from that have
      "list_all2 (\<lambda>ex g. example_to_relevance_features (label_map label_list) m tk ex = Inr g)
         pairs gs"
      by (simp add: convert_examples_to_relevance_features_def relevance_loop_Inr)
    then show ?thesis
      by (rule list_all2_mono) (auto dest!: relevance_Inr dest: lookup_label_Some)
  qed
  have feat_ret: "\<exists>fs. convert_examples_to_features examples label_list m tk = Some (Inr fs)
            \<and> list_all2 (\<lambda>ex f. \<exists>l. label ex = Some l
                 \<and> label_map label_list l = Some (InputFeatures.label_id f)) examples fs"
    if h: "(\<forall>ex\<in>set examples. \<exists>l. label ex = Some l \<and> l \<in> set label_list)
         \<and> 2 \<le> m \<and> (\<forall>ex\<in>set examples. truthy (text_b ex) \<longrightarrow> 3 \<le> m)"
  proof -
    from h have "\<forall>ex\<in>set examples. (truthy (text_b ex) \<longrightarrow> 3 \<le> m)
           \<and> (\<exists>i. lookup_label (label_map label_list) (label ex) = Inr i)"
      using lookup_label_member by fastforce
    moreover from h have "2 \<le> m" by simp
    ultimately obtain fs where
      "features_loop (label_map label_list) m tk examples = Some (Inr fs)"
      using features_loop_ok [of m examples "label_map label_list" tk] by blast
    then have "convert_examples_to_features examples label_list m tk = Some (Inr fs)"
      by (simp add: convert_examples_to_features_def)
    with feat [OF this] show ?thesis by blast
  qed
  have rel_ret: "\<exists>gs. convert_examples_to_relevance_features pairs label_list m tk = Inr gs
            \<and> list_all2 (\<lambda>ex g. \<exists>l. label ex = Some l
                 \<and> label_map label_list l = Some (RelevanceFeatures.label_id g)) pairs gs"
    if h: "(\<forall>ex\<in>set pairs. (\<exists>l. label ex = Some l \<and> l \<in> set label_list) \<and> text_b ex \<noteq> None)
         \<and> 2 \<le> m"
  proof -
    from h have "\<forall>ex\<in>set pairs. text_b ex \<noteq> None
           \<and> (\<exists>i. lookup_label (label_map label_list) (label ex) = Inr i)"
      using lookup_label_member by fastforce
    moreover from h have "2 \<le> m" by simp
    ultimately obtain gs where
      "relevance_loop (label_map label_list) m tk pairs = Inr gs"
      using relevance_loop_ok [of m pairs "label_map label_list" tk] by blast
    then have "convert_examples_to_relevance_features pairs label_list m tk = Inr gs"
      by (simp add: convert_examples_to_relevance_features_def)
    with rel [OF this] show ?thesis by blast
  qed
  have idx: "\<forall>i<length label_list. label_map label_list (label_list ! i) = Some (int i)"
    using assms by (simp add: label_map_index)
  have ex: "label_map [''0'', ''1''] ''1'' = Some 1"
    by (simp add: label_map_def label_entry_def)
  from label_map_dom [of label_list] label_map_bij [OF assms] idx feat_ret feat rel_ret rel ex
  show ?thesis by blast
qed

theorem label_map_bijection_witness:
  "distinct [''0'', ''1'']
   \<and> label_map [''0'', ''1''] ''0'' = Some 0 \<and> label_map [''0'', ''1''] ''1'' = Some 1
   \<and> dom (label_map [''0'', ''1'']) = {''0'', ''1''}
   \<and> (2::int) \<le> 6
   \<and> convert_examples_to_features
       [\<lparr>guid = ''train-0'', text_a = ''abcdef'', text_b = Some ''xy'', label = Some ''1''\<rparr>,
        \<lparr>guid = ''train-1'', text_a = ''abcdef'', text_b = None, label = Some ''0''\<rparr>]
       [''0'', ''1''] 6 char_tokenizer
     = Some (Inr [\<lparr>input_ids = [5, 1, 1, 5, 1, 5], input_mask = [1, 1, 1, 1, 1, 1],
                    segment_ids = [0, 0, 0, 0, 1, 1], label_id = 1\<rparr>,
                  \<lparr>input_ids = [5, 1, 1, 1, 1, 5], input_mask = [1, 1, 1, 1, 1, 1],
                    segment_ids = [0, 0, 0, 0, 0, 0], label_id = 0\<rparr>])
   \<and> convert_examples_to_relevance_features
       [\<lparr>guid = ''train-0'', text_a = ''abcdef'', text_b = Some ''xy'', label = Some ''1''\<rparr>]
       [''0'', ''1''] 6 char_tokenizer
     = Inr [\<lparr>query_ids = [5, 1, 1, 1, 1, 5], psg_ids = [5, 1, 1, 5, 0, 0],
              query_mask = [1, 1, 1, 1, 1, 1], psg_mask = [1, 1, 1, 1, 0, 0],
              query_segment_ids = [0, 0, 0, 0, 0, 0],
              psg_segment_ids = [0, 0, 0, 0, 0, 0], label_id = 1\<rparr>]"
proof -
  have d: "distinct [''0'', ''1'']" by simp
  have v: "label_map [''0'', ''1''] ''0'' = Some 0"
    by (simp add: label_map_def label_entry_def)
  from label_map_bijection
    [OF d, of "[\<lparr>guid = ''train-0'', text_a = ''abcdef'', text_b = Some ''xy'',
                   label = Some ''1''\<rparr>,
                 \<lparr>guid = ''train-1'', text_a = ''abcdef'', text_b = None,
                   label = Some ''0''\<rparr>]"
        6 char_tokenizer
        "[\<lparr>guid = ''train-0'', text_a = ''abcdef'', text_b = Some ''xy'',
             label = Some ''1''\<rparr>]"]
    d v run_features run_relevance
  show ?thesis by auto
qed

text \<open>
  Claim C10. In every record that \<open>convert_examples_to_relevance_features\<close> returns,
  \<open>query_segment_ids\<close> and \<open>psg_segment_ids\<close> are \<open>max_seq_length\<close> zeros: the
  passage side never carries segment id 1.
\<close>

theorem relevance_segment_ids_zero:
  assumes "convert_examples_to_relevance_features pairs label_list m tk = Inr gs"
  shows "\<forall>g\<in>set gs. query_segment_ids g = replicate (nat m) 0
           \<and> psg_segment_ids g = replicate (nat m) 0
           \<and> 1 \<notin> set (psg_segment_ids g)"
proof
  fix g
  assume "g \<in> set gs"
  moreover from assms have
    "list_all2 (\<lambda>ex g. example_to_relevance_features (label_map label_list) m tk ex = Inr g)
       pairs gs"
    by (simp add: convert_examples_to_relevance_features_def relevance_loop_Inr)
  ultimately obtain ex where
    "example_to_relevance_features (label_map label_list) m tk ex = Inr g"
    by (blast dest: list_all2_setD)
  from relevance_sides [OF this]
  have "query_segment_ids g = repeat 0 m" "psg_segment_ids g = repeat 0 m"
    by (auto simp: Let_def)
  then show "query_segment_ids g = replicate (nat m) 0
           \<and> psg_segment_ids g = replicate (nat m) 0
           \<and> 1 \<notin> set (psg_segment_ids g)"
    by (simp add: repeat_replicate)
qed

theorem relevance_segment_ids_zero_witness:
  "convert_examples_to_relevance_features
       [\<lparr>guid = ''train-0'', text_a = ''abcdef'', text_b = Some ''xy'', label = Some ''1''\<rparr>]
       [''0'', ''1''] 6 char_tokenizer
     = Inr [\<lparr>query_ids = [5, 1, 1, 1, 1, 5], psg_ids = [5, 1, 1, 5, 0, 0],
              query_mask = [1, 1, 1, 1, 1, 1], psg_mask = [1, 1, 1, 1, 0, 0],
              query_segment_ids = [0, 0, 0, 0, 0, 0],
              psg_segment_ids = [0, 0, 0, 0, 0, 0], label_id = 1\<rparr>]
   \<and> [0, 0, 0, 0, 0, 0] = replicate (nat 6) (0::int)"
  using relevance_segment_ids_zero [OF run_relevance] run_relevance
  by (simp add: eval_nat_numeral)

text \<open>
  Claim C3 says that the content tokens kept from the two sides of a pair by
  \<open>convert_examples_to_relevance_features\<close> never exceed \<open>max_seq_length - 3\<close>
  together. With \<open>max_seq_length = 4\<close> and two tokens on each side, the converter keeps
  all four tokens, and the budget would be one.
\<close>

theorem relevance_budget_counterexample:
  "convert_examples_to_relevance_features
       [\<lparr>guid = ''train-0'', text_a = ''ab'', text_b = Some ''cd'', label = Some ''1''\<rparr>]
       [''0'', ''1''] 4 char_tokenizer
     = Inr [\<lparr>query_ids = [5, 1, 1, 5], psg_ids = [5, 1, 1, 5],
              query_mask = [1, 1, 1, 1], psg_mask = [1, 1, 1, 1],
              query_segment_ids = [0, 0, 0, 0],
              psg_segment_ids = [0, 0, 0, 0], label_id = 1\<rparr>]
   \<and> truncate_tokens (tokenize char_tokenizer ''ab'') 4 = [''a'', ''b'']
   \<and> truncate_tokens (tokenize char_tokenizer ''cd'') 4 = [''c'', ''d'']
   \<and> \<not> int (length (truncate_tokens (tokenize char_tokenizer ''ab'') 4))
         + int (length (truncate_tokens (tokenize char_tokenizer ''cd'') 4)) \<le> 4 - 3"
  by (simp add: convert_examples_to_relevance_features_def label_map_def label_entry_def
        example_to_relevance_features_def truncate_tokens_def slice_to_def
        Let_def repeat_def convert_tokens_to_ids_def char_tokenizer_def
        lookup_label_def eval_nat_numeral)

text \<open>
  Claim C3, amended. In every record that \<open>convert_examples_to_relevance_features\<close>
  returns, each side keeps at most \<open>max_seq_length - 2\<close> content tokens, so the two
  sides together keep at most \<open>2 * (max_seq_length - 2)\<close>; the ones of each mask
  count the kept tokens of that side and its two markers.
\<close>

theorem relevance_pair_budget:
  assumes "convert_examples_to_relevance_features pairs label_list m tk = Inr gs"
  shows "list_all2 (\<lambda>ex g. \<exists>tb. text_b ex = Some tb \<and>
           (let ka = int (length (truncate_tokens (tokenize tk (text_a ex)) m));
                kb = int (length (truncate_tokens (tokenize tk tb) m))
            in ka \<le> m - 2 \<and> kb \<le> m - 2 \<and> ka + kb \<le> 2 * (m - 2)
               \<and> sum_list (query_mask g) = ka + 2 \<and> sum_list (psg_mask g) = kb + 2))
         pairs gs"
proof -
  from assms have
    "list_all2 (\<lambda>ex g. example_to_relevance_features (label_map label_list) m tk ex = Inr g)
       pairs gs"
    by (simp add: convert_examples_to_relevance_features_def relevance_loop_Inr)
  then show ?thesis
  proof (rule list_all2_mono)
    fix ex g
    assume "example_to_relevance_features (label_map label_list) m tk ex = Inr g"
    from relevance_sides [OF this] obtain tb where tb: "text_b ex = Some tb"
      and ka: "int (length (truncate_tokens (tokenize tk (text_a ex)) m)) \<le> m - 2"
      and kb: "int (length (truncate_tokens (tokenize tk tb) m)) \<le> m - 2"
      and qm: "query_mask g = repeat 1 (int (length (truncate_tokens (tokenize tk (text_a ex)) m)) + 2)
                 @ repeat 0 (m - (int (length (truncate_tokens (tokenize tk (text_a ex)) m)) + 2))"
      and pm: "psg_mask g = repeat 1 (int (length (truncate_tokens (tokenize tk tb) m)) + 2)
                 @ repeat 0 (m - (int (length (truncate_tokens (tokenize tk tb) m)) + 2))"
      by (auto simp: Let_def)
    have "sum_list (query_mask g) = int (length (truncate_tokens (tokenize tk (text_a ex)) m)) + 2"
      unfolding qm by (rule sum_list_mask) simp
    moreover
    have "sum_list (psg_mask g) = int (length (truncate_tokens (tokenize tk tb) m)) + 2"
      unfolding pm by (rule sum_list_mask) simp
    ultimately
    show "\<exists>tb. text_b ex = Some tb \<and>
           (let ka = int (length (truncate_tokens (tokenize tk (text_a ex)) m));
                kb = int (length (truncate_tokens (tokenize tk tb) m))
            in ka \<le> m - 2 \<and> kb \<le> m - 2 \<and> ka + kb \<le> 2 * (m - 2)
               \<and> sum_list (query_mask g) = ka + 2 \<and> sum_list (psg_mask g) = kb + 2)"
      using tb ka kb by (simp add: Let_def)
  qed
qed

theorem relevance_pair_budget_witness:
  "convert_examples_to_relevance_features
       [\<lparr>guid = ''train-0'', text_a = ''abcdef'', text_b = Some ''xy'', label = Some ''1''\<rparr>]
       [''0'', ''1''] 6 char_tokenizer
     = Inr [\<lparr>query_ids = [5, 1, 1, 1, 1, 5], psg_ids = [5, 1, 1, 5, 0, 0],
              query_mask = [1, 1, 1, 1, 1, 1], psg_mask = [1, 1, 1, 1, 0, 0],
              query_segment_ids = [0, 0, 0, 0, 0, 0],
              psg_segment_ids = [0, 0, 0, 0, 0, 0], label_id = 1\<rparr>]
   \<and> int (length (truncate_tokens (tokenize char_tokenizer ''abcdef'') 6))
       + int (length (truncate_tokens (tokenize char_tokenizer ''xy'') 6)) \<le> 2 * (6 - 2)
   \<and> sum_list [1, 1, 1, 1, 0, 0 :: int]
       = int (length (truncate_tokens (tokenize char_tokenizer ''xy'') 6)) + 2"
  using relevance_pair_budget [OF run_relevance] run_relevance
  by (simp add: Let_def)

text \<open>
  Claim C7, amended. When every row after the first has the columns that
  \<open>MrpcProcessor\<close> (five) or \<open>MnliProcessor\<close> (ten) reads, \<open>_create_examples\<close> skips
  the first row and returns one example per remaining row, in order:
  \<open>len(lines) - 1\<close> examples for a non-empty list and none for the empty list. When
  every row has the columns that \<open>ColaProcessor\<close> (four) or \<open>TextQnA\<close> (three) reads,
  \<open>_create_examples\<close> returns one example per row, the first included:
  \<open>len(lines)\<close> examples.
\<close>

theorem create_examples_counts:
  "((\<forall>line\<in>set (tl lines). 5 \<le> length line) \<longrightarrow>
      (\<exists>exs. MrpcProcessor_create_examples lines set_type = Inr exs
         \<and> int (length exs) = (if lines = [] then 0 else int (length lines) - 1)
         \<and> map text_a exs = map (\<lambda>line. line ! 3) (tl lines)))
   \<and> ((\<forall>line\<in>set (tl lines). 10 \<le> length line) \<longrightarrow>
      (\<exists>exs. MnliProcessor_create_examples lines set_type = Inr exs
         \<and> int (length exs) = (if lines = [] then 0 else int (length lines) - 1)
         \<and> map text_a exs = map (\<lambda>line. line ! 8) (tl lines)))
   \<and> ((\<forall>line\<in>set lines. 4 \<le> length line) \<longrightarrow>
      (\<exists>exs. ColaProcessor_create_examples lines set_type = Inr exs
         \<and> length exs = length lines
         \<and> map text_a exs = map (\<lambda>line. line ! 3) lines))
   \<and> ((\<forall>line\<in>set lines. 3 \<le> length line) \<longrightarrow>
      (\<exists>exs. TextQnA_create_examples lines set_type = Inr exs
         \<and> length exs = length lines
         \<and> map text_a exs = map (\<lambda>line. line ! 0) lines))"
proof (intro conjI impI)
  assume wf: "\<forall>line\<in>set (tl lines). 5 \<le> length line"
  show "\<exists>exs. MrpcProcessor_create_examples lines set_type = Inr exs
         \<and> int (length exs) = (if lines = [] then 0 else int (length lines) - 1)
         \<and> map text_a exs = map (\<lambda>line. line ! 3) (tl lines)"
  proof (cases lines)
    case Nil
    then show ?thesis by (simp add: MrpcProcessor_create_examples_def)
  next
    case (Cons header rows)
    with wf mrpc_rows_ok [of "Suc 0" rows set_type] show ?thesis
      by (auto simp: MrpcProcessor_create_examples_def)
  qed
next
  assume wf: "\<forall>line\<in>set (tl lines). 10 \<le> length line"
  show "\<exists>exs. MnliProcessor_create_examples lines set_type = Inr exs
         \<and> int (length exs) = (if lines = [] then 0 else int (length lines) - 1)
         \<and> map text_a exs = map (\<lambda>line. line ! 8) (tl lines)"
  proof (cases lines)
    case Nil
    then show ?thesis by (simp add: MnliProcessor_create_examples_def)
  next
    case (Cons header rows)
    with wf mnli_rows_ok [of "Suc 0" rows set_type] show ?thesis
      by (auto simp: MnliProcessor_create_examples_def)
  qed
next
  assume "\<forall>line\<in>set lines. 4 \<le> length line"
  from cola_rows_ok [OF this, of set_type 0]
  show "\<exists>exs. ColaProcessor_create_examples lines set_type = Inr exs
         \<and> length exs = length lines
         \<and> map text_a exs = map (\<lambda>line. line ! 3) lines"
    by (simp add: ColaProcessor_create_examples_def)
next
  assume "\<forall>line\<in>set lines. 3 \<le> length line"
  from textqna_rows_ok [OF this, of set_type 0]
  show "\<exists>exs. TextQnA_create_examples lines set_type = Inr exs
         \<and> length exs = length lines
         \<and> map text_a exs = map (\<lambda>line. line ! 0) lines"
    by (simp add: TextQnA_create_examples_def)
qed

text \<open>
  Claim C7 speaks of every list of input rows. A row with fewer columns than the
  processor reads raises \<open>IndexError\<close> and no example is produced, and on the empty
  list \<open>MrpcProcessor\<close> returns no example, which is not \<open>len(lines) - 1\<close>.
\<close>

theorem create_examples_counterexample:
  "ColaProcessor_create_examples [[''a'']] ''train'' = Inl IndexError
   \<and> TextQnA_create_examples [[''q'', ''p'']] ''train'' = Inl IndexError
   \<and> MrpcProcessor_create_examples [[''h''], [''1'', ''7'', ''8'', ''s'']] ''train''
       = Inl IndexError
   \<and> MrpcProcessor_create_examples [] ''train'' = Inr []
   \<and> int (length ([] :: InputExample list)) \<noteq> int (length ([] :: string list list)) - 1"
  by (simp add: ColaProcessor_create_examples_def cola_example_def
        TextQnA_create_examples_def textqna_example_def
        MrpcProcessor_create_examples_def mrpc_example_def item_def)

theorem create_examples_counts_witness:
  "MrpcProcessor_create_examples
     [[''Quality'', ''id1'', ''id2'', ''s1'', ''s2''], [''1'', ''7'', ''8'', ''a b'', ''c d'']]
     ''train''
     = Inr [\<lparr>guid = ''train-1'', text_a = ''a b'', text_b = Some ''c d'', label = Some ''1''\<rparr>]
   \<and> MnliProcessor_create_examples
     [[''h''], [''7'', ''1'', ''2'', ''3'', ''4'', ''5'', ''6'', ''7'', ''prem'', ''hyp'', ''neutral'']]
     ''dev_matched''
     = Inr [\<lparr>guid = ''dev_matched-7'', text_a = ''prem'', text_b = Some ''hyp'',
              label = Some ''neutral''\<rparr>]
   \<and> ColaProcessor_create_examples [[''gj04'', ''1'', ''*'', ''They sang.'']] ''train''
     = Inr [\<lparr>guid = ''train-0'', text_a = ''They sang.'', text_b = None, label = Some ''1''\<rparr>]
   \<and> TextQnA_create_examples [[''q one'', ''p one'', ''1''], [''q two'', ''p two'', ''0'']] ''dev''
     = Inr [\<lparr>guid = ''dev-0'', text_a = ''q one'', text_b = Some ''p one'', label = Some ''1''\<rparr>,
            \<lparr>guid = ''dev-1'', text_a = ''q two'', text_b = Some ''p two'', label = Some ''0''\<rparr>]"
proof -
  have runs:
    "MrpcProcessor_create_examples
       [[''Quality'', ''id1'', ''id2'', ''s1'', ''s2''], [''1'', ''7'', ''8'', ''a b'', ''c d'']]
       ''train''
     = Inr [\<lparr>guid = ''train-1'', text_a = ''a b'', text_b = Some ''c d'', label = Some ''1''\<rparr>]"
    "MnliProcessor_create_examples
       [[''h''], [''7'', ''1'', ''2'', ''3'', ''4'', ''5'', ''6'', ''7'', ''prem'', ''hyp'', ''neutral'']]
       ''dev_matched''
     = Inr [\<lparr>guid = ''dev_matched-7'', text_a = ''prem'', text_b = Some ''hyp'',
              label = Some ''neutral''\<rparr>]"
    "ColaProcessor_create_examples [[''gj04'', ''1'', ''*'', ''They sang.'']] ''train''
     = Inr [\<lparr>guid = ''train-0'', text_a = ''They sang.'', text_b = None, label = Some ''1''\<rparr>]"
    "TextQnA_create_examples [[''q one'', ''p one'', ''1''], [''q two'', ''p two'', ''0'']] ''dev''
     = Inr [\<lparr>guid = ''dev-0'', text_a = ''q one'', text_b = Some ''p one'', label = Some ''1''\<rparr>,
            \<lparr>guid = ''dev-1'', text_a = ''q two'', text_b = Some ''p two'', label = Some ''0''\<rparr>]"
    by (simp_all add: MrpcProcessor_create_examples_def mrpc_example_def
          MnliProcessor_create_examples_def mnli_example_def
          ColaProcessor_create_examples_def cola_example_def
          TextQnA_create_examples_def textqna_example_def item_def
          str_nat.simps digit_def)
  show ?thesis
    using create_examples_counts
      [of "[[''Quality'', ''id1'', ''id2'', ''s1'', ''s2''], [''1'', ''7'', ''8'', ''a b'', ''c d'']]"
          "''train''"]
      create_examples_counts
      [of "[[''h''], [''7'', ''1'', ''2'', ''3'', ''4'', ''5'', ''6'', ''7'', ''prem'', ''hyp'', ''neutral'']]"
          "''dev_matched''"]
      create_examples_counts [of "[[''gj04'', ''1'', ''*'', ''They sang.'']]" "''train''"]
      create_examples_counts
      [of "[[''q one'', ''p one'', ''1''], [''q two'', ''p two'', ''0'']]" "''dev''"]
      runs
    by simp
qed

text \<open>
  Claim C6. \<open>main\<close> ends with an exception, before it loads the tokenizer and the
  model, whenever \<open>gradient_accumulation_steps < 1\<close>, whenever neither \<open>do_train\<close> nor
  \<open>do_eval\<close> is set, whenever \<open>do_train\<close> is set and the output directory exists and
  is not empty, and whenever the lowercased task name is not a key of \<open>processors\<close>
  (cola, mnli, mrpc, textqna). The checks run in this order, and the first one that
  fails raises \<open>ValueError\<close> with a message that names the argument: the parameter
  and its value, the two flags, the directory, the lowercased task name. Between the
  first check and the others stands the division of line 539, which raises
  \<open>OverflowError\<close> for a batch size of \<open>2^1024\<close> times the accumulation steps or more
  and returns for every batch size from 0 to \<open>2^1023\<close>.
\<close>

theorem main_validation:
  "(gradient_accumulation_steps a < 1
      \<or> (\<not> do_train a \<and> \<not> do_eval a)
      \<or> (do_train a \<and> path_exists ev (output_dir a)
           \<and> (\<exists>entries. listdir ev (output_dir a) = Inr entries \<and> entries \<noteq> []))
      \<or> processors (lower ev (task_name a)) = None
     \<longrightarrow> (\<exists>e. main ev a = Inl e))
   \<and> dom processors = {''cola'', ''mnli'', ''mrpc'', ''textqna''}
   \<and> (device_setup ev = None \<and> gradient_accumulation_steps a < 1 \<longrightarrow>
        main ev a
          = Inl (ValueError (''Invalid gradient_accumulation_steps parameter: ''
                   @ str_int (gradient_accumulation_steps a) @ '', should be >= 1'')))
   \<and> (device_setup ev = None \<and> 1 \<le> gradient_accumulation_steps a
        \<and> int_truediv (train_batch_size a) (gradient_accumulation_steps a) = Inl e \<longrightarrow>
        main ev a = Inl e)
   \<and> (1 \<le> gradient_accumulation_steps a \<and> 0 \<le> train_batch_size a
        \<and> train_batch_size a \<le> 2 ^ 1023 \<longrightarrow>
        (\<exists>q. int_truediv (train_batch_size a) (gradient_accumulation_steps a) = Inr q))
   \<and> (1 \<le> gradient_accumulation_steps a
        \<and> 2 ^ 1024 * gradient_accumulation_steps a \<le> train_batch_size a \<longrightarrow>
        int_truediv (train_batch_size a) (gradient_accumulation_steps a) = Inl OverflowError)
   \<and> (device_setup ev = None \<and> seeding ev = None \<and> 1 \<le> gradient_accumulation_steps a
        \<and> int_truediv (train_batch_size a) (gradient_accumulation_steps a) = Inr q
        \<and> \<not> do_train a \<and> \<not> do_eval a \<longrightarrow>
        main ev a
          = Inl (ValueError ''At least one of `do_train` or `do_eval` must be True.''))
   \<and> (device_setup ev = None \<and> seeding ev = None \<and> 1 \<le> gradient_accumulation_steps a
        \<and> int_truediv (train_batch_size a) (gradient_accumulation_steps a) = Inr q
        \<and> do_train a \<and> path_exists ev (output_dir a)
        \<and> (\<exists>entries. listdir ev (output_dir a) = Inr entries \<and> entries \<noteq> []) \<longrightarrow>
        main ev a
          = Inl (ValueError (''Output directory ('' @ output_dir a
                   @ '') already exists and is not empty.'')))
   \<and> (device_setup ev = None \<and> seeding ev = None \<and> 1 \<le> gradient_accumulation_steps a
        \<and> int_truediv (train_batch_size a) (gradient_accumulation_steps a) = Inr q
        \<and> (do_train a \<or> do_eval a) \<and> output_dir_in_use ev a = Inr False
        \<and> makedirs ev (output_dir a) = None
        \<and> processors (lower ev (task_name a)) = None \<longrightarrow>
        main ev a = Inl (ValueError (''Task not found: '' @ lower ev (task_name a))))"
proof (intro conjI impI)
  assume "gradient_accumulation_steps a < 1
      \<or> (\<not> do_train a \<and> \<not> do_eval a)
      \<or> (do_train a \<and> path_exists ev (output_dir a)
           \<and> (\<exists>entries. listdir ev (output_dir a) = Inr entries \<and> entries \<noteq> []))
      \<or> processors (lower ev (task_name a)) = None"
  then show "\<exists>e. main ev a = Inl e" by (rule main_fails)
next
  show "dom processors = {''cola'', ''mnli'', ''mrpc'', ''textqna''}" by (rule dom_processors)
next
  assume "device_setup ev = None \<and> gradient_accumulation_steps a < 1"
  then show "main ev a
          = Inl (ValueError (''Invalid gradient_accumulation_steps parameter: ''
                   @ str_int (gradient_accumulation_steps a) @ '', should be >= 1''))"
    by (simp add: main_def)
next
  assume "device_setup ev = None \<and> 1 \<le> gradient_accumulation_steps a
        \<and> int_truediv (train_batch_size a) (gradient_accumulation_steps a) = Inl e"
  then show "main ev a = Inl e" by (simp add: main_def)
next
  assume "1 \<le> gradient_accumulation_steps a \<and> 0 \<le> train_batch_size a
        \<and> train_batch_size a \<le> 2 ^ 1023"
  then show "\<exists>q. int_truediv (train_batch_size a) (gradient_accumulation_steps a) = Inr q"
    by (simp add: int_truediv_ok)
next
  assume "1 \<le> gradient_accumulation_steps a
        \<and> 2 ^ 1024 * gradient_accumulation_steps a \<le> train_batch_size a"
  then show "int_truediv (train_batch_size a) (gradient_accumulation_steps a)
               = Inl OverflowError"
    by (simp add: int_truediv_overflow)
next
  assume "device_setup ev = None \<and> seeding ev = None \<and> 1 \<le> gradient_accumulation_steps a
        \<and> int_truediv (train_batch_size a) (gradient_accumulation_steps a) = Inr q
        \<and> \<not> do_train a \<and> \<not> do_eval a"
  then show "main ev a
          = Inl (ValueError ''At least one of `do_train` or `do_eval` must be True.'')"
    by (simp add: main_def)
next
  assume h: "device_setup ev = None \<and> seeding ev = None \<and> 1 \<le> gradient_accumulation_steps a
        \<and> int_truediv (train_batch_size a) (gradient_accumulation_steps a) = Inr q
        \<and> do_train a \<and> path_exists ev (output_dir a)
        \<and> (\<exists>entries. listdir ev (output_dir a) = Inr entries \<and> entries \<noteq> [])"
  then have "output_dir_in_use ev a = Inr True"
    by (auto intro: output_dir_in_use_True)
  with h show "main ev a
          = Inl (ValueError (''Output directory ('' @ output_dir a
                   @ '') already exists and is not empty.''))"
    by (simp add: main_def)
next
  assume h: "device_setup ev = None \<and> seeding ev = None \<and> 1 \<le> gradient_accumulation_steps a
        \<and> int_truediv (train_batch_size a) (gradient_accumulation_steps a) = Inr q
        \<and> (do_train a \<or> do_eval a) \<and> output_dir_in_use ev a = Inr False
        \<and> makedirs ev (output_dir a) = None
        \<and> processors (lower ev (task_name a)) = None"
  then have "select_task ev (task_name a)
               = Inl (ValueError (''Task not found: '' @ lower ev (task_name a)))"
    by (simp add: select_task_unknown)
  with h show "main ev a = Inl (ValueError (''Task not found: '' @ lower ev (task_name a)))"
    by (auto simp: main_def)
qed

theorem main_validation_witness:
  "main
     \<lparr>device_setup = None, seeding = None, path_exists = (\<lambda>d. d = ''out''),
      listdir = (\<lambda>d. Inr [''pytorch_model_0.bin'']), makedirs = (\<lambda>d. None),
      lower = ascii_lower\<rparr>
     \<lparr>task_name = ''TextQnA'', output_dir = ''out'', do_train = True, do_eval = False,
      train_batch_size = 32, gradient_accumulation_steps = 0\<rparr>
   = Inl (ValueError ''Invalid gradient_accumulation_steps parameter: 0, should be >= 1'')
   \<and> main
     \<lparr>device_setup = None, seeding = None, path_exists = (\<lambda>d. d = ''out''),
      listdir = (\<lambda>d. Inr [''pytorch_model_0.bin'']), makedirs = (\<lambda>d. None),
      lower = ascii_lower\<rparr>
     \<lparr>task_name = ''TextQnA'', output_dir = ''out'', do_train = False, do_eval = False,
      train_batch_size = 2 ^ 1024, gradient_accumulation_steps = 1\<rparr>
   = Inl OverflowError
   \<and> main
     \<lparr>device_setup = None, seeding = None, path_exists = (\<lambda>d. d = ''out''),
      listdir = (\<lambda>d. Inr [''pytorch_model_0.bin'']), makedirs = (\<lambda>d. None),
      lower = ascii_lower\<rparr>
     \<lparr>task_name = ''TextQnA'', output_dir = ''out'', do_train = False, do_eval = False,
      train_batch_size = 32, gradient_accumulation_steps = 1\<rparr>
   = Inl (ValueError ''At least one of `do_train` or `do_eval` must be True.'')
   \<and> main
     \<lparr>device_setup = None, seeding = None, path_exists = (\<lambda>d. d = ''out''),
      listdir = (\<lambda>d. Inr [''pytorch_model_0.bin'']), makedirs = (\<lambda>d. None),
      lower = ascii_lower\<rparr>
     \<lparr>task_name = ''TextQnA'', output_dir = ''out'', do_train = True, do_eval = False,
      train_batch_size = 32, gradient_accumulation_steps = 1\<rparr>
   = Inl (ValueError ''Output directory (out) already exists and is not empty.'')
   \<and> main
     \<lparr>device_setup = None, seeding = None, path_exists = (\<lambda>d. d = ''out''),
      listdir = (\<lambda>d. Inr [''pytorch_model_0.bin'']), makedirs = (\<lambda>d. None),
      lower = ascii_lower\<rparr>
     \<lparr>task_name = ''SST-2'', output_dir = ''fresh'', do_train = True, do_eval = False,
      train_batch_size = 32, gradient_accumulation_steps = 1\<rparr>
   = Inl (ValueError ''Task not found: sst-2'')
   \<and> main
     \<lparr>device_setup = None, seeding = None, path_exists = (\<lambda>d. d = ''out''),
      listdir = (\<lambda>d. Inr [''pytorch_model_0.bin'']), makedirs = (\<lambda>d. None),
      lower = ascii_lower\<rparr>
     \<lparr>task_name = ''TextQnA'', output_dir = ''fresh'', do_train = True, do_eval = False,
      train_batch_size = 32, gradient_accumulation_steps = 1\<rparr>
   = Inr (32, TextQnA, 2, [''0'', ''1''])"
proof -
  have ok: "main
     \<lparr>device_setup = None, seeding = None, path_exists = (\<lambda>d. d = ''out''),
      listdir = (\<lambda>d. Inr [''pytorch_model_0.bin'']), makedirs = (\<lambda>d. None),
      lower = ascii_lower\<rparr>
     \<lparr>task_name = ''TextQnA'', output_dir = ''fresh'', do_train = True, do_eval = False,
      train_batch_size = 32, gradient_accumulation_steps = 1\<rparr>
   = Inr (32, TextQnA, 2, [''0'', ''1''])"
    by (simp add: main_def output_dir_in_use_def select_task_def ascii_lower_sample
          processors_def num_labels_task_def int_truediv_sample)
  have unknown: "processors ''sst-2'' = None" by (simp add: processors_def)
  have over: "int_truediv (2 ^ 1024) 1 = Inl OverflowError"
    by (rule int_truediv_overflow) simp_all
  show ?thesis
    using main_validation
      [of "\<lparr>task_name = ''TextQnA'', output_dir = ''out'', do_train = True, do_eval = False,
            train_batch_size = 32, gradient_accumulation_steps = 0\<rparr>"
          "\<lparr>device_setup = None, seeding = None, path_exists = (\<lambda>d. d = ''out''),
            listdir = (\<lambda>d. Inr [''pytorch_model_0.bin'']), makedirs = (\<lambda>d. None),
            lower = ascii_lower\<rparr>" OverflowError 32]
      main_validation
      [of "\<lparr>task_name = ''TextQnA'', output_dir = ''out'', do_train = False, do_eval = False,
            train_batch_size = 2 ^ 1024, gradient_accumulation_steps = 1\<rparr>"
          "\<lparr>device_setup = None, seeding = None, path_exists = (\<lambda>d. d = ''out''),
            listdir = (\<lambda>d. Inr [''pytorch_model_0.bin'']), makedirs = (\<lambda>d. None),
            lower = ascii_lower\<rparr>" OverflowError 32]
      main_validation
      [of "\<lparr>task_name = ''TextQnA'', output_dir = ''out'', do_train = False, do_eval = False,
            train_batch_size = 32, gradient_accumulation_steps = 1\<rparr>"
          "\<lparr>device_setup = None, seeding = None, path_exists = (\<lambda>d. d = ''out''),
            listdir = (\<lambda>d. Inr [''pytorch_model_0.bin'']), makedirs = (\<lambda>d. None),
            lower = ascii_lower\<rparr>" OverflowError 32]
      main_validation
      [of "\<lparr>task_name = ''TextQnA'', output_dir = ''out'', do_train = True, do_eval = False,
            train_batch_size = 32, gradient_accumulation_steps = 1\<rparr>"
          "\<lparr>device_setup = None, seeding = None, path_exists = (\<lambda>d. d = ''out''),
            listdir = (\<lambda>d. Inr [''pytorch_model_0.bin'']), makedirs = (\<lambda>d. None),
            lower = ascii_lower\<rparr>" OverflowError 32]
      main_validation
      [of "\<lparr>task_name = ''SST-2'', output_dir = ''fresh'', do_train = True, do_eval = False,
            train_batch_size = 32, gradient_accumulation_steps = 1\<rparr>"
          "\<lparr>device_setup = None, seeding = None, path_exists = (\<lambda>d. d = ''out''),
            listdir = (\<lambda>d. Inr [''pytorch_model_0.bin'']), makedirs = (\<lambda>d. None),
            lower = ascii_lower\<rparr>" OverflowError 32]
      ok unknown over
    by (simp add: ascii_lower_sample str_int_0 output_dir_in_use_def int_truediv_sample)
qed

text \<open>
  Claim C8 says that \<open>warmup_linear\<close> is strictly increasing on \<open>[0, warmup)\<close> and
  strictly decreasing on \<open>[warmup, 1]\<close>. The function computes on doubles: with
  \<open>warmup = 1/16\<close> the two neighbouring doubles \<open>1/8\<close> and \<open>1/8 + 2^-55\<close> both give
  \<open>7/8\<close>, and with \<open>warmup = 3/4\<close> the two neighbouring doubles \<open>3/8 + 2^-54\<close> and
  \<open>3/8 + 2^-53\<close> both give \<open>1/2 + 2^-53\<close>. Every argument is a double: \<open>round64\<close>
  leaves it as it is.
\<close>

theorem warmup_linear_strict_counterexample:
  "round64 (1 / 16) = 1 / 16 \<and> round64 (1 / 8) = 1 / 8
   \<and> round64 (1 / 8 + 1 / 2 ^ 55) = 1 / 8 + 1 / 2 ^ 55
   \<and> (0::real) < 1 / 16 \<and> (1 / 16 :: real) < 1
   \<and> (1 / 16 :: real) \<le> 1 / 8 \<and> (1 / 8 :: real) < 1 / 8 + 1 / 2 ^ 55
   \<and> (1 / 8 + 1 / 2 ^ 55 :: real) \<le> 1
   \<and> warmup_linear (1 / 8) (1 / 16) = Inr (Finite (7 / 8))
   \<and> warmup_linear (1 / 8 + 1 / 2 ^ 55) (1 / 16) = Inr (Finite (7 / 8))
   \<and> round64 (3 / 4) = 3 / 4 \<and> round64 (3 / 8 + 1 / 2 ^ 54) = 3 / 8 + 1 / 2 ^ 54
   \<and> round64 (3 / 8 + 1 / 2 ^ 53) = 3 / 8 + 1 / 2 ^ 53
   \<and> (0 :: real) \<le> 3 / 8 + 1 / 2 ^ 54
   \<and> (3 / 8 + 1 / 2 ^ 54 :: real) < 3 / 8 + 1 / 2 ^ 53
   \<and> (3 / 8 + 1 / 2 ^ 53 :: real) < 3 / 4
   \<and> warmup_linear (3 / 8 + 1 / 2 ^ 54) (3 / 4) = Inr (Finite (1 / 2 + 1 / 2 ^ 53))
   \<and> warmup_linear (3 / 8 + 1 / 2 ^ 53) (3 / 4) = Inr (Finite (1 / 2 + 1 / 2 ^ 53))"
proof -
  have "warmup_linear (1 / 8) (1 / 16) = Inr (Finite (7 / 8))"
    "warmup_linear (1 / 8 + 1 / 2 ^ 55) (1 / 16) = Inr (Finite (7 / 8))"
    "warmup_linear (3 / 8 + 1 / 2 ^ 54) (3 / 4) = Inr (Finite (1 / 2 + 1 / 2 ^ 53))"
    "warmup_linear (3 / 8 + 1 / 2 ^ 53) (3 / 4) = Inr (Finite (1 / 2 + 1 / 2 ^ 53))"
    using round64_collisions
    by (simp_all add: warmup_linear_def float_div_def float_sub_def to_float_def Let_def pow2_def)
  then show ?thesis using round64_samples by simp
qed

text \<open>
  Claim C8, amended. For \<open>0 < warmup < 1\<close>, \<open>warmup_linear(x, warmup)\<close> is the double
  nearest to \<open>x / warmup\<close> when \<open>x < warmup\<close> and the double nearest to \<open>1 - x\<close>
  otherwise, within \<open>2^-54\<close> of the exact value on \<open>[0, 1]\<close>. On \<open>[0, warmup)\<close> it
  does not decrease, starts from 0 at \<open>x = 0\<close> and stays at most 1; on \<open>[warmup, 1]\<close>
  it does not increase and reaches 0 at \<open>x = 1\<close>.
\<close>

theorem warmup_linear_monotone:
  assumes "0 < warmup" and "warmup < 1"
  shows "(0 \<le> x \<and> x \<le> y \<and> y < warmup \<longrightarrow>
           warmup_linear x warmup = Inr (Finite (round64 (x / warmup)))
           \<and> warmup_linear y warmup = Inr (Finite (round64 (y / warmup)))
           \<and> \<bar>round64 (x / warmup) - x / warmup\<bar> \<le> 1 / 2 ^ 54
           \<and> 0 \<le> round64 (x / warmup)
           \<and> round64 (x / warmup) \<le> round64 (y / warmup)
           \<and> round64 (y / warmup) \<le> 1)
       \<and> warmup_linear 0 warmup = Inr (Finite 0)
       \<and> (warmup \<le> u \<and> u \<le> v \<and> v \<le> 1 \<longrightarrow>
           warmup_linear u warmup = Inr (Finite (round64 (1 - u)))
           \<and> warmup_linear v warmup = Inr (Finite (round64 (1 - v)))
           \<and> \<bar>round64 (1 - u) - (1 - u)\<bar> \<le> 1 / 2 ^ 54
           \<and> 0 \<le> round64 (1 - v)
           \<and> round64 (1 - v) \<le> round64 (1 - u)
           \<and> round64 (1 - u) \<le> 1)
       \<and> warmup_linear 1 warmup = Inr (Finite 0)"
proof (intro conjI impI)
  assume h: "0 \<le> x \<and> x \<le> y \<and> y < warmup"
  with assms have qx: "0 \<le> x / warmup" "x / warmup \<le> 1"
    and qy: "0 \<le> y / warmup" "y / warmup \<le> 1"
    and le: "x / warmup \<le> y / warmup"
    by (simp_all add: divide_right_mono)
  from h assms qx show "warmup_linear x warmup = Inr (Finite (round64 (x / warmup)))"
    by (simp add: warmup_linear_def float_div_def to_float_unit)
  from h assms qy show "warmup_linear y warmup = Inr (Finite (round64 (y / warmup)))"
    by (simp add: warmup_linear_def float_div_def to_float_unit)
  from qx show "\<bar>round64 (x / warmup) - x / warmup\<bar> \<le> 1 / 2 ^ 54"
    by (rule round64_error_unit)
  from qx show "0 \<le> round64 (x / warmup)" by (simp add: round64_nonneg)
  from qx le show "round64 (x / warmup) \<le> round64 (y / warmup)" by (simp add: round64_mono)
  from qy show "round64 (y / warmup) \<le> 1" by (simp add: round64_unit)
next
  from assms show "warmup_linear 0 warmup = Inr (Finite 0)"
    by (simp add: warmup_linear_def float_div_def to_float_def round64_0 pow2_def)
next
  assume h: "warmup \<le> u \<and> u \<le> v \<and> v \<le> 1"
  with assms have ru: "0 \<le> 1 - u" "1 - u \<le> 1" and rv: "0 \<le> 1 - v" "1 - v \<le> 1"
    and le: "1 - v \<le> 1 - u" by simp_all
  from h ru show "warmup_linear u warmup = Inr (Finite (round64 (1 - u)))"
    by (simp add: warmup_linear_def float_sub_def to_float_unit)
  from h assms rv show "warmup_linear v warmup = Inr (Finite (round64 (1 - v)))"
    by (simp add: warmup_linear_def float_sub_def to_float_unit)
  from ru show "\<bar>round64 (1 - u) - (1 - u)\<bar> \<le> 1 / 2 ^ 54" by (rule round64_error_unit)
  from rv show "0 \<le> round64 (1 - v)" by (simp add: round64_nonneg)
  from rv le show "round64 (1 - v) \<le> round64 (1 - u)" by (simp add: round64_mono)
  from ru show "round64 (1 - u) \<le> 1" by (simp add: round64_unit)
next
  from assms show "warmup_linear 1 warmup = Inr (Finite 0)"
    by (simp add: warmup_linear_def float_sub_def to_float_def round64_0 pow2_def)
qed

theorem warmup_linear_monotone_witness:
  "(0::real) < 3 / 4 \<and> (3 / 4 :: real) < 1
   \<and> (0 :: real) \<le> 3 / 8 + 1 / 2 ^ 54 \<and> (3 / 8 + 1 / 2 ^ 54 :: real) \<le> 3 / 8 + 1 / 2 ^ 53
   \<and> (3 / 8 + 1 / 2 ^ 53 :: real) < 3 / 4
   \<and> warmup_linear (3 / 8 + 1 / 2 ^ 54) (3 / 4) = Inr (Finite (1 / 2 + 1 / 2 ^ 53))
   \<and> warmup_linear (3 / 8 + 1 / 2 ^ 53) (3 / 4) = Inr (Finite (1 / 2 + 1 / 2 ^ 53))
   \<and> (3 / 4 :: real) \<le> 7 / 8 \<and> (7 / 8 :: real) \<le> 1
   \<and> warmup_linear (7 / 8) (3 / 4) = Inr (Finite (1 / 8))
   \<and> warmup_linear 1 (3 / 4) = Inr (Finite 0)
   \<and> warmup_linear 0 (3 / 4) = Inr (Finite 0)"
  using warmup_linear_monotone
    [of "3 / 4" "3 / 8 + 1 / 2 ^ 54" "3 / 8 + 1 / 2 ^ 53" "7 / 8" 1]
    round64_collisions
  by (simp add: round64_0)

end
